theory Spec2Isabelle
  imports Complex_Main "HOL-Library.AList"
begin

unbundle bit_operations_syntax

text \<open>
  A shallow embedding of the fingerprinting engine: the result interpreter
  (core/utils.py), the pairing stage of the fingerprinter (fingerprinting.py), the hash
  index (database.py), the offset-voting matcher (core/matcher.py), the configuration
  check (config.py) and the service facade (backend/service.py). Python integers are
  \<open>int\<close>; a float is a double (\<open>pyfloat\<close>, with rounding, infinities and NaN) in the
  configuration and in the fingerprinter's time bound, and an exact real in the two
  quotients that only yield the displayed position and the stored duration.
  Dictionaries are association lists in insertion order, and a function that can raise
  returns \<open>py_error + 'a\<close>. The definitions come first; the properties follow, one
  section per component.
\<close>

section \<open>Python values, exceptions and dictionaries\<close>

text \<open>
  Exceptions are values. \<open>ExternalError\<close> stands for any exception raised inside the
  numerical and input/output libraries the repository calls (librosa, scipy, pickle, the
  file system); its argument is the text of \<open>str(e)\<close>.
\<close>

datatype py_error =
    ValueError string
  | TypeError string
  | ZeroDivisionError string
  | NameError string
  | OverflowError string
  | ExternalError string

fun error_str :: "py_error \<Rightarrow> string" where
  "error_str (ValueError m) = m"
| "error_str (TypeError m) = m"
| "error_str (ZeroDivisionError m) = m"
| "error_str (NameError m) = m"
| "error_str (OverflowError m) = m"
| "error_str (ExternalError m) = m"

text \<open>The values stored in the result dictionaries of \<open>interpret_match\<close>.\<close>

datatype pyval = PBool bool | PInt int | PStr string

text \<open>
  A Python \<open>dict\<close> keeps its keys in insertion order, and \<open>max\<close> over a dictionary
  depends on that order. A dictionary is therefore an association list with distinct keys:
  \<open>map_of\<close> reads it, \<open>AList.update\<close> overwrites a present key in place and appends an
  absent one at the end.
\<close>

type_synonym ('k, 'v) dict = "('k \<times> 'v) list"

text \<open>A name between single quotes, as the interpreter's messages print it.\<close>

definition quoted :: "string \<Rightarrow> string" where
  "quoted name = CHR 0x27 # name @ [CHR 0x27]"

text \<open>\<open>int(x)\<close> on a float truncates towards zero.\<close>

definition py_int :: "real \<Rightarrow> int" where
  "py_int x = (if 0 \<le> x then \<lfloor>x\<rfloor> else \<lceil>x\<rceil>)"

section \<open>Python floats\<close>

text \<open>
  A Python \<open>float\<close> is an IEEE 754 double: a finite value, an infinity or NaN. The sign
  of zero is not kept; no operation modelled here can observe it.
\<close>

datatype pyfloat = Finite real | PosInf | NegInf | NaN

text \<open>The binary exponent of a positive number \<open>a\<close>: the \<open>e\<close> with \<open>2^e \<le> a < 2^(e+1)\<close>.\<close>

function binary_exponent :: "real \<Rightarrow> int" where
  "binary_exponent a =
     (if a \<le> 0 then 0
      else if a < 1 then binary_exponent (2 * a) - 1
      else if 2 \<le> a then binary_exponent (a / 2) + 1
      else 0)"
  by pat_completeness auto
termination
proof (relation "measure (\<lambda>a. if a < 1 then nat \<lceil>1 / a\<rceil> else nat \<lfloor>a\<rfloor>)")
  show "wf (measure (\<lambda>a::real. if a < 1 then nat \<lceil>1 / a\<rceil> else nat \<lfloor>a\<rfloor>))"
    by simp
next
  fix a :: real
  assume a: "\<not> a \<le> 0" "a < 1"
  then have "1 < 1 / a" by simp
  then have c: "2 \<le> \<lceil>1 / a\<rceil>" by linarith
  show "(2 * a, a) \<in> measure (\<lambda>a. if a < 1 then nat \<lceil>1 / a\<rceil> else nat \<lfloor>a\<rfloor>)"
  proof (cases "2 * a < 1")
    case True
    have "1 / (2 * a) = (1 / a) / 2" by simp
    then have "\<lceil>1 / (2 * a)\<rceil> < \<lceil>1 / a\<rceil>" using c by linarith
    with True a c show ?thesis by simp
  next
    case False
    with a have "\<lfloor>2 * a\<rfloor> = 1" by linarith
    with False a c show ?thesis by simp
  qed
next
  fix a :: real
  assume a: "\<not> a \<le> 0" "\<not> a < 1" "2 \<le> a"
  then have "\<lfloor>a / 2\<rfloor> < \<lfloor>a\<rfloor>" by linarith
  moreover from a have "0 \<le> \<lfloor>a / 2\<rfloor>" by simp
  ultimately show "(a / 2, a) \<in> measure (\<lambda>a. if a < 1 then nat \<lceil>1 / a\<rceil> else nat \<lfloor>a\<rfloor>)"
    using a by simp
qed

declare binary_exponent.simps [simp del]

text \<open>Rounding to the nearest integer, a tie going to the even one.\<close>

definition round_half_even :: "real \<Rightarrow> int" where
  "round_half_even m =
     (let f = \<lfloor>m\<rfloor>; r = m - real_of_int f in
      if r < 1 / 2 then f
      else if 1 / 2 < r then f + 1
      else if even f then f else f + 1)"

text \<open>
  The double nearest to a real number, ties to even: 53 significant bits, so the
  spacing at binary exponent \<open>e\<close> is \<open>2^(e - 52)\<close>, and never finer than \<open>2^-1074\<close>
  (subnormal numbers); a result of magnitude \<open>2^1024\<close> or more is an infinity.
\<close>

definition round_double :: "real \<Rightarrow> pyfloat" where
  "round_double x =
     (if x = 0 then Finite 0
      else
        let u = max (binary_exponent \<bar>x\<bar> - 52) (- 1074);
            r = real_of_int (round_half_even (x / 2 powi u)) * 2 powi u
        in if 2 ^ 1024 \<le> \<bar>r\<bar> then (if 0 < x then PosInf else NegInf) else Finite r)"

text \<open>The real numbers that are doubles: rounding leaves them as they are.\<close>

definition is_double :: "real \<Rightarrow> bool" where
  "is_double x \<longleftrightarrow> round_double x = Finite x"

text \<open>
  An \<open>int\<close> operand of a float operation is converted to the nearest double;
  the conversion raises when the integer is too large.
\<close>

definition float_of_int :: "int \<Rightarrow> py_error + pyfloat" where
  "float_of_int n =
     (case round_double (real_of_int n) of
        Finite r \<Rightarrow> Inr (Finite r)
      | _ \<Rightarrow> Inl (OverflowError ''int too large to convert to float''))"

text \<open>\<open>x * y\<close> on floats: the exact product rounded; the IEEE rules for infinities and NaN.\<close>

fun float_mul :: "pyfloat \<Rightarrow> pyfloat \<Rightarrow> pyfloat" where
  "float_mul (Finite x) (Finite y) = round_double (x * y)"
| "float_mul NaN _ = NaN"
| "float_mul _ NaN = NaN"
| "float_mul (Finite x) PosInf = (if x = 0 then NaN else if 0 < x then PosInf else NegInf)"
| "float_mul (Finite x) NegInf = (if x = 0 then NaN else if 0 < x then NegInf else PosInf)"
| "float_mul PosInf (Finite y) = (if y = 0 then NaN else if 0 < y then PosInf else NegInf)"
| "float_mul NegInf (Finite y) = (if y = 0 then NaN else if 0 < y then NegInf else PosInf)"
| "float_mul PosInf PosInf = PosInf"
| "float_mul PosInf NegInf = NegInf"
| "float_mul NegInf PosInf = NegInf"
| "float_mul NegInf NegInf = PosInf"

text \<open>
  \<open>x / y\<close> on floats: Python raises on a zero divisor; otherwise the exact quotient
  rounded, and the IEEE rules for infinities and NaN.
\<close>

fun float_div :: "pyfloat \<Rightarrow> pyfloat \<Rightarrow> py_error + pyfloat" where
  "float_div x (Finite y) =
     (if y = 0 then Inl (ZeroDivisionError ''float division by zero'')
      else case x of
        Finite x' \<Rightarrow> Inr (round_double (x' / y))
      | PosInf \<Rightarrow> Inr (if 0 < y then PosInf else NegInf)
      | NegInf \<Rightarrow> Inr (if 0 < y then NegInf else PosInf)
      | NaN \<Rightarrow> Inr NaN)"
| "float_div x NaN = Inr NaN"
| "float_div (Finite x) PosInf = Inr (Finite 0)"
| "float_div (Finite x) NegInf = Inr (Finite 0)"
| "float_div NaN PosInf = Inr NaN"
| "float_div NaN NegInf = Inr NaN"
| "float_div PosInf PosInf = Inr NaN"
| "float_div PosInf NegInf = Inr NaN"
| "float_div NegInf PosInf = Inr NaN"
| "float_div NegInf NegInf = Inr NaN"

text \<open>\<open>int(x)\<close> on a float: truncation towards zero; an infinity and NaN raise.\<close>

fun int_of_float :: "pyfloat \<Rightarrow> py_error + int" where
  "int_of_float (Finite x) = Inr (py_int x)"
| "int_of_float PosInf = Inl (OverflowError ''cannot convert float infinity to integer'')"
| "int_of_float NegInf = Inl (OverflowError ''cannot convert float infinity to integer'')"
| "int_of_float NaN = Inl (ValueError ''cannot convert float NaN to integer'')"

section \<open>core/utils.py\<close>

definition confidence_label :: "int \<Rightarrow> string" where
  "confidence_label score =
     (if score < 200 then ''No match''
      else if score < 1000 then ''Low confidence''
      else if score < 3000 then ''Medium confidence''
      else ''High confidence'')"

text \<open>Decimal rendering of a non-negative integer, as \<open>f"{n}"\<close> prints it.\<close>

fun str_nat :: "nat \<Rightarrow> string" where
  "str_nat n =
     (if n < 10 then [''0123456789'' ! n]
      else str_nat (n div 10) @ [''0123456789'' ! (n mod 10)])"

declare str_nat.simps [simp del]

text \<open>\<open>f"{n:02d}"\<close>: the decimal rendering padded with zeros on the left to width two.\<close>

definition str_nat_02d :: "nat \<Rightarrow> string" where
  "str_nat_02d n = replicate (2 - length (str_nat n)) (CHR ''0'') @ str_nat n"

text \<open>
  \<open>seconds_to_mmss\<close> receives the float \<open>best_offset * hop_length / sr\<close>. The quotient is
  taken as the exact real number; the rounding of the floating-point division is not
  modelled.
\<close>

definition seconds_to_mmss :: "real \<Rightarrow> string" where
  "seconds_to_mmss seconds =
     (let seconds' = nat (py_int \<bar>seconds\<bar>);
          minutes = seconds' div 60;
          secs = seconds' mod 60
      in str_nat minutes @ '':'' @ str_nat_02d secs)"

definition interpret_match ::
  "string option \<Rightarrow> int option \<Rightarrow> int \<Rightarrow> int \<Rightarrow> int \<Rightarrow> py_error + (string, pyval) dict" where
  "interpret_match song_name best_offset score hop_length sr =
     (let confidence = confidence_label score in
      if confidence = ''No match'' \<or> song_name = None \<or> best_offset = None then
        Inr [(''matched'', PBool False),
             (''message'', PStr ''No matching song detected''),
             (''raw_score'', PInt score)]
      else if sr = 0 then Inl (ZeroDivisionError ''division by zero'')
      else
        let offset_seconds = real_of_int (the best_offset * hop_length) / real_of_int sr;
            position = seconds_to_mmss offset_seconds
        in Inr [(''matched'', PBool True),
                (''song'', PStr (the song_name)),
                (''position_in_song'', PStr position),
                (''confidence'', PStr confidence),
                (''raw_score'', PInt score)])"

section \<open>fingerprinting.py\<close>

type_synonym fingerprint = "int \<times> int \<times> int \<times> int"

text \<open>
  \<open>np.where(peaks)\<close> walks the boolean matrix row by row (row = frequency bin, column = time
  frame) and returns the row indices and the column indices of the true cells.
  \<open>where_cells f rows\<close> lists the \<open>(row, column)\<close> index pairs for the rows numbered from
  \<open>f\<close> on.
\<close>

fun where_cells :: "nat \<Rightarrow> bool list list \<Rightarrow> (int \<times> int) list" where
  "where_cells f [] = []"
| "where_cells f (row # rows) =
     map (\<lambda>t. (int f, int t)) (filter (\<lambda>t. row ! t) [0..<length row])
     @ where_cells (Suc f) rows"

definition np_where :: "bool list list \<Rightarrow> int list \<times> int list" where
  "np_where peaks = (map fst (where_cells 0 peaks), map snd (where_cells 0 peaks))"

text \<open>
  The peak list: \<open>list(zip(time_idx, freq_idx))\<close>, then \<open>sort(key=lambda x: x[0])\<close>.
  Python's sort is stable, and so is \<open>sort_key\<close>.
\<close>

definition peak_list_of :: "bool list list \<Rightarrow> (int \<times> int) list" where
  "peak_list_of peaks =
     (case np_where peaks of (freq_idx, time_idx) \<Rightarrow> sort_key fst (zip time_idx freq_idx))"

text \<open>
  The inner loop over the targets \<open>j > i\<close> of one anchor \<open>(t1, f1)\<close>: \<open>continue\<close> below
  \<open>dt_min\<close>, \<open>break\<close> above \<open>dt_max\<close>, \<open>break\<close> once \<open>count\<close> reaches \<open>fanout\<close>.
\<close>

fun pair_targets ::
  "int \<Rightarrow> int \<Rightarrow> int \<Rightarrow> int \<Rightarrow> int \<Rightarrow> int \<Rightarrow> (int \<times> int) list \<Rightarrow> fingerprint list" where
  "pair_targets fanout dt_min dt_max t1 f1 count [] = []"
| "pair_targets fanout dt_min dt_max t1 f1 count ((t2, f2) # rest) =
     (let dt = t2 - t1 in
      if dt < dt_min then pair_targets fanout dt_min dt_max t1 f1 count rest
      else if dt > dt_max then []
      else (f1, f2, dt, t1) #
           (if count + 1 \<ge> fanout then []
            else pair_targets fanout dt_min dt_max t1 f1 (count + 1) rest))"

text \<open>The outer loop over the anchors, in the order of the peak list.\<close>

fun pair_anchors :: "int \<Rightarrow> int \<Rightarrow> int \<Rightarrow> (int \<times> int) list \<Rightarrow> fingerprint list" where
  "pair_anchors fanout dt_min dt_max [] = []"
| "pair_anchors fanout dt_min dt_max ((t1, f1) # rest) =
     pair_targets fanout dt_min dt_max t1 f1 0 rest
     @ pair_anchors fanout dt_min dt_max rest"

text \<open>
  \<open>int(dt_max_seconds * sr / hop_length)\<close>, evaluated as Python does for a float
  \<open>dt_max_seconds\<close> (its annotation, and its default 2.0) and integers \<open>sr\<close> and
  \<open>hop_length\<close>: \<open>sr\<close> is converted to a float and the product is rounded to a double;
  \<open>hop_length\<close> is converted, a zero divisor raises, and the quotient is rounded again;
  \<open>int\<close> truncates the result.
\<close>

definition dt_max_of :: "pyfloat \<Rightarrow> int \<Rightarrow> int \<Rightarrow> py_error + int" where
  "dt_max_of dt_max_seconds sr hop_length =
     (case float_of_int sr of
        Inl e \<Rightarrow> Inl e
      | Inr sr' \<Rightarrow>
          (case float_of_int hop_length of
             Inl e \<Rightarrow> Inl e
           | Inr hop_length' \<Rightarrow>
               (case float_div (float_mul dt_max_seconds sr') hop_length' of
                  Inl e \<Rightarrow> Inl e
                | Inr q \<Rightarrow> int_of_float q)))"

text \<open>
  \<open>extract_fingerprints\<close>. The spectrogram and the band-wise maximum filter are
  floating-point computations of librosa and scipy on whole arrays: their outcome, the
  boolean matrix \<open>peaks\<close> or the exception raised on the way, is the first argument, and
  the parameters that only they read (\<open>freq_neighborhood\<close>, \<open>time_neighborhood\<close>,
  \<open>amplitude_threshold\<close>, \<open>num_bands\<close>) are left out. Everything from \<open>np.where\<close> on is
  the code.
\<close>

definition extract_fingerprints ::
  "py_error + bool list list \<Rightarrow> int \<Rightarrow> int \<Rightarrow> int \<Rightarrow> int \<Rightarrow> int \<Rightarrow> pyfloat
     \<Rightarrow> py_error + fingerprint list" where
  "extract_fingerprints peaks sr n_fft hop_ratio fanout dt_min dt_max_seconds =
     (if hop_ratio = 0 then Inl (ZeroDivisionError ''integer division or modulo by zero'')
      else
        let hop_length = n_fft div hop_ratio in
        case peaks of
          Inl e \<Rightarrow> Inl e
        | Inr peak_mask \<Rightarrow>
            let peak_list = peak_list_of peak_mask in
            (case dt_max_of dt_max_seconds sr hop_length of
               Inl e \<Rightarrow> Inl e
             | Inr dt_max \<Rightarrow> Inr (pair_anchors fanout dt_min dt_max peak_list)))"

text \<open>
  The order the specification gives for the peak list: time ascending, ties by frequency
  ascending. A peak is a pair \<open>(t, f)\<close>.
\<close>

definition time_then_freq :: "int \<times> int \<Rightarrow> int \<times> int \<Rightarrow> bool" where
  "time_then_freq a b \<longleftrightarrow> fst a < fst b \<or> (fst a = fst b \<and> snd a \<le> snd b)"

text \<open>The fingerprints of a list whose anchor is the peak \<open>(t1, f1)\<close>.\<close>

definition emitted_with_anchor :: "int \<times> int \<Rightarrow> fingerprint list \<Rightarrow> fingerprint list" where
  "emitted_with_anchor anchor fingerprints =
     filter (\<lambda>(f1, f2, dt, t1). (t1, f1) = anchor) fingerprints"

text \<open>
  Name resolution at the \<open>return\<close> of \<open>extract_fingerprints_with_snr_info\<close>: the local
  names bound when the statement runs, and the names bound at module level in
  fingerprinting.py.
\<close>

definition snr_info_locals :: "string list" where
  "snr_info_locals =
     [''y'', ''sr'', ''n_fft'', ''hop_ratio'', ''freq_neighborhood'', ''time_neighborhood'',
      ''amplitude_threshold'', ''num_bands'', ''fanout'', ''dt_min'', ''dt_max_seconds'',
      ''fingerprints'', ''snr_db'']"

definition fingerprinting_globals :: "string list" where
  "fingerprinting_globals =
     [''List'', ''Tuple'', ''np'', ''librosa'', ''maximum_filter'',
      ''extract_fingerprints'', ''load_audio'', ''compute_snr_estimate'',
      ''analyze_peak_distribution'', ''extract_fingerprints_with_snr_info'']"

definition load_name :: "string list \<Rightarrow> string list \<Rightarrow> string \<Rightarrow> 'a \<Rightarrow> py_error + 'a" where
  "load_name locals globals name v =
     (if name \<in> set locals \<or> name \<in> set globals then Inr v
      else Inl (NameError (''name '' @ quoted name @ '' is not defined'')))"

text \<open>
  \<open>extract_fingerprints_with_snr_info\<close>; \<open>snr\<close> is the outcome of
  \<open>compute_snr_estimate\<close>, a floating-point computation. The value the undefined name
  would have is irrelevant: the lookup fails before it is read.
\<close>

definition extract_fingerprints_with_snr_info ::
  "py_error + bool list list \<Rightarrow> py_error + real \<Rightarrow> int \<Rightarrow> int \<Rightarrow> int \<Rightarrow> int \<Rightarrow> int \<Rightarrow> pyfloat
     \<Rightarrow> py_error + fingerprint list \<times> real" where
  "extract_fingerprints_with_snr_info peaks snr sr n_fft hop_ratio fanout dt_min dt_max_seconds =
     (case extract_fingerprints peaks sr n_fft hop_ratio fanout dt_min dt_max_seconds of
        Inl e \<Rightarrow> Inl e
      | Inr fingerprints \<Rightarrow>
          (if hop_ratio = 0 then Inl (ZeroDivisionError ''integer division or modulo by zero'')
           else case snr of
             Inl e \<Rightarrow> Inl e
           | Inr snr_db \<Rightarrow>
               (case load_name snr_info_locals fingerprinting_globals ''snr_db_actual'' snr_db of
                  Inl e \<Rightarrow> Inl e
                | Inr snr_db_actual \<Rightarrow> Inr (fingerprints, snr_db_actual))))"

section \<open>database.py\<close>

type_synonym fingerprint_hash = "int \<times> int \<times> int"
type_synonym database_entry = "string \<times> int"
type_synonym database = "(fingerprint_hash, database_entry list) dict"

record song_meta =
  num_fingerprints :: int
  duration_seconds :: "real option"

type_synonym metadata = "(string, song_meta) dict"

text \<open>The entries stored under a hash key: the empty list when the key is absent.\<close>

definition bucket :: "database \<Rightarrow> fingerprint_hash \<Rightarrow> database_entry list" where
  "bucket db hash_key = (case map_of db hash_key of None \<Rightarrow> [] | Some entries \<Rightarrow> entries)"

text \<open>
  The entries a recording contributes to one bucket: \<open>(song_name, t1)\<close> for each of its
  fingerprints with that hash key, in the order of the fingerprints.
\<close>

definition entries_for ::
  "string \<Rightarrow> fingerprint list \<Rightarrow> fingerprint_hash \<Rightarrow> database_entry list" where
  "entries_for song_name fingerprints hash_key =
     map (\<lambda>(f1, f2, dt, t1). (song_name, t1))
       (filter (\<lambda>(f1, f2, dt, t1). (f1, f2, dt) = hash_key) fingerprints)"

text \<open>\<open>db[hash_key].append(entry)\<close> on a \<open>defaultdict(list)\<close>.\<close>

definition append_entry :: "database \<Rightarrow> fingerprint_hash \<Rightarrow> database_entry \<Rightarrow> database" where
  "append_entry db hash_key entry =
     AList.update hash_key
       ((case map_of db hash_key of None \<Rightarrow> [] | Some entries \<Rightarrow> entries) @ [entry]) db"

definition add_fingerprints :: "string \<Rightarrow> fingerprint list \<Rightarrow> database \<Rightarrow> database" where
  "add_fingerprints song_name fingerprints db =
     fold (\<lambda>(f1, f2, dt, t1) d. append_entry d (f1, f2, dt) (song_name, t1)) fingerprints db"

definition build_song_database ::
  "(string, fingerprint list) dict \<Rightarrow> database \<times> metadata" where
  "build_song_database song_fingerprints =
     fold (\<lambda>(song_name, fingerprints) (db, metadata).
             (add_fingerprints song_name fingerprints db,
              AList.update song_name
                \<lparr>num_fingerprints = int (length fingerprints), duration_seconds = None\<rparr>
                metadata))
          song_fingerprints ([], [])"

section \<open>core/matcher.py\<close>

text \<open>\<open>votes[key] += 1\<close> on a \<open>defaultdict(int)\<close>.\<close>

definition increment :: "('k, int) dict \<Rightarrow> 'k \<Rightarrow> ('k, int) dict" where
  "increment votes key =
     AList.update key ((case map_of votes key of None \<Rightarrow> 0 | Some c \<Rightarrow> c) + 1) votes"

text \<open>The body of the loop over the query fingerprints.\<close>

definition cast_votes ::
  "database \<Rightarrow> fingerprint \<Rightarrow> (string \<times> int, int) dict \<Rightarrow> (string \<times> int, int) dict" where
  "cast_votes db fp votes =
     (case fp of (f1, f2, dt, t_query) \<Rightarrow>
        (case map_of db (f1, f2, dt) of
           None \<Rightarrow> votes
         | Some entries \<Rightarrow>
             fold (\<lambda>(song_name, t_db) v. increment v (song_name, t_db - t_query))
               entries votes))"

text \<open>
  \<open>max(votes, key=votes.get)\<close> walks the keys in insertion order and replaces the best
  one only by a key whose count is strictly greater: \<open>max_from best items\<close> is that
  walk over the remaining items.
\<close>

fun max_from :: "'k \<times> int \<Rightarrow> ('k \<times> int) list \<Rightarrow> 'k \<times> int" where
  "max_from best [] = best"
| "max_from best (item # items) =
     max_from (if snd item > snd best then item else best) items"

definition query_multi_song ::
  "fingerprint list \<Rightarrow> database \<Rightarrow> string option \<times> int option \<times> int" where
  "query_multi_song query_fingerprints db =
     (let votes = fold (cast_votes db) query_fingerprints [] in
      case votes of
        [] \<Rightarrow> (None, None, 0)
      | first # items \<Rightarrow>
          (case max_from first items of
             ((song_name, offset), score) \<Rightarrow> (Some song_name, Some offset, score)))"

text \<open>
  The votes as the specification counts them: every query fingerprint, in order, gives
  one vote \<open>(song_name, t_db - t_query)\<close> for each entry \<open>(song_name, t_db)\<close> stored under its
  hash key. The vote count of a pair is the number of its occurrences in this list.
\<close>

definition votes_cast :: "fingerprint list \<Rightarrow> database \<Rightarrow> (string \<times> int) list" where
  "votes_cast query_fingerprints db =
     concat (map (\<lambda>(f1, f2, dt, t_query).
                    map (\<lambda>(song_name, t_db). (song_name, t_db - t_query))
                      (bucket db (f1, f2, dt)))
               query_fingerprints)"

text \<open>The distinct elements of a list, in the order of their first occurrences.\<close>

fun first_occurrences :: "'a list \<Rightarrow> 'a list" where
  "first_occurrences [] = []"
| "first_occurrences (x # xs) = x # removeAll x (first_occurrences xs)"

text \<open>
  The vote dictionary that a list of votes leaves behind: each pair that occurs, with
  the number of its occurrences, in the order of the first occurrences.
\<close>

definition tally :: "'k list \<Rightarrow> ('k, int) dict" where
  "tally ks = map (\<lambda>k. (k, int (count_list ks k))) (first_occurrences ks)"

section \<open>config.py\<close>











text \<open>
  The service reads its configuration field by field; there it is a record with the
  types of the defaults.
\<close>

record config =
  cfg_sr :: int
  cfg_n_fft :: int
  cfg_hop_ratio :: int
  cfg_freq_neighborhood :: int
  cfg_time_neighborhood :: int
  cfg_amplitude_threshold :: int
  cfg_num_bands :: int
  cfg_fanout :: int
  cfg_dt_min :: int
  cfg_dt_max_seconds :: pyfloat

definition DEFAULT_CONFIG :: config where
  "DEFAULT_CONFIG =
     \<lparr>cfg_sr = 44100, cfg_n_fft = 2048, cfg_hop_ratio = 4,
      cfg_freq_neighborhood = 20, cfg_time_neighborhood = 20,
      cfg_amplitude_threshold = - 35, cfg_num_bands = 6,
      cfg_fanout = 10, cfg_dt_min = 2, cfg_dt_max_seconds = Finite 2\<rparr>"


section \<open>backend/service.py\<close>

text \<open>
  What the service gets from \<open>load_audio\<close> and the numerical front end for one audio
  file: the number of samples \<open>len(y)\<close>, and the outcome of the spectrogram and peak
  detection run under the service's configuration.
\<close>

record audio =
  num_samples :: nat
  audio_peaks :: "py_error + bool list list"

text \<open>
  The pickle file holds a dictionary with the keys \<open>db\<close> and \<open>metadata\<close>; \<open>load_database\<close>
  reads both with a default, so either may be absent. \<open>Unreadable\<close> is a file that
  \<open>pickle.load\<close> rejects.
\<close>

record snapshot =
  snap_db :: "database option"
  snap_metadata :: "metadata option"

datatype pickle_file = Unreadable | Pickled snapshot

type_synonym filesystem = "string \<rightharpoonup> pickle_file"

datatype io_outcome = WriteOk | OpenFails | DumpFails

record service =
  svc_db_path :: string
  svc_db :: database
  svc_metadata :: metadata
  svc_config :: config

definition load_database :: "service \<Rightarrow> filesystem \<Rightarrow> bool \<times> service" where
  "load_database svc fs =
     (case fs (svc_db_path svc) of
        None \<Rightarrow> (False, svc)
      | Some Unreadable \<Rightarrow> (False, svc)
      | Some (Pickled data) \<Rightarrow>
          (True,
           svc\<lparr>svc_db := (case snap_db data of None \<Rightarrow> [] | Some d \<Rightarrow> d),
               svc_metadata := (case snap_metadata data of None \<Rightarrow> [] | Some m \<Rightarrow> m)\<rparr>))"

definition save_database :: "service \<Rightarrow> io_outcome \<Rightarrow> filesystem \<Rightarrow> bool \<times> filesystem" where
  "save_database svc io fs =
     (case io of
        OpenFails \<Rightarrow> (False, fs)
      | DumpFails \<Rightarrow> (False, fs(svc_db_path svc \<mapsto> Unreadable))
      | WriteOk \<Rightarrow>
          (True,
           fs(svc_db_path svc \<mapsto>
                Pickled \<lparr>snap_db = Some (svc_db svc),
                         snap_metadata = Some (svc_metadata svc)\<rparr>)))"

definition new_service :: "string \<Rightarrow> filesystem \<Rightarrow> service" where
  "new_service path fs =
     snd (load_database
            \<lparr>svc_db_path = path, svc_db = [], svc_metadata = [],
             svc_config = DEFAULT_CONFIG\<rparr> fs)"

text \<open>The merge loop of \<open>add_song\<close> over \<open>new_db.items()\<close>.\<close>

definition merge_entries :: "database \<Rightarrow> database \<Rightarrow> database" where
  "merge_entries new_db db =
     fold (\<lambda>(hash_key, entries) d.
             (case map_of d hash_key of
                Some old \<Rightarrow> AList.update hash_key (old @ entries) d
              | None \<Rightarrow> AList.update hash_key entries d))
          new_db db"

definition add_song_failed :: "py_error \<Rightarrow> bool \<times> int \<times> string" where
  "add_song_failed e = (False, 0, ''Error adding song: '' @ error_str e)"

text \<open>
  \<open>add_song\<close>. The index and the metadata are updated in place before the duration is
  computed and before the file is written, so an exception after the merge leaves them
  updated; the state is returned in every branch.
\<close>

definition add_song ::
  "service \<Rightarrow> py_error + audio \<Rightarrow> string \<Rightarrow> io_outcome \<Rightarrow> filesystem
     \<Rightarrow> (bool \<times> int \<times> string) \<times> service \<times> filesystem" where
  "add_song svc loaded song_name io fs =
     (let c = svc_config svc in
      case loaded of
        Inl e \<Rightarrow> (add_song_failed e, svc, fs)
      | Inr y \<Rightarrow>
          (case extract_fingerprints (audio_peaks y) (cfg_sr c) (cfg_n_fft c) (cfg_hop_ratio c)
                  (cfg_fanout c) (cfg_dt_min c) (cfg_dt_max_seconds c) of
             Inl e \<Rightarrow> (add_song_failed e, svc, fs)
           | Inr fingerprints \<Rightarrow>
               (case build_song_database [(song_name, fingerprints)] of
                  (new_db, new_metadata) \<Rightarrow>
                    let svc1 = svc\<lparr>svc_db := merge_entries new_db (svc_db svc)\<rparr>;
                        meta = the (map_of new_metadata song_name);
                        svc2 = svc1\<lparr>svc_metadata :=
                                      AList.update song_name meta (svc_metadata svc1)\<rparr>
                    in if cfg_sr c = 0
                       then (add_song_failed (ZeroDivisionError ''division by zero''), svc2, fs)
                       else
                         let duration = real (num_samples y) / real_of_int (cfg_sr c);
                             svc3 = svc2\<lparr>svc_metadata :=
                                           AList.update song_name
                                             (meta\<lparr>duration_seconds := Some duration\<rparr>)
                                             (svc_metadata svc2)\<rparr>
                         in ((True, int (length fingerprints),
                              ''Successfully added '' @ song_name),
                             svc3, snd (save_database svc3 io fs)))))"

definition recognition_error :: "py_error \<Rightarrow> (string, pyval) dict" where
  "recognition_error e =
     [(''matched'', PBool False),
      (''message'', PStr (''Error during recognition: '' @ error_str e))]"

text \<open>\<open>recognize_audio\<close>: every exception raised inside the \<open>try\<close> ends in the handler.\<close>

definition recognize_audio :: "service \<Rightarrow> py_error + audio \<Rightarrow> (string, pyval) dict" where
  "recognize_audio svc loaded =
     (let c = svc_config svc in
      case loaded of
        Inl e \<Rightarrow> recognition_error e
      | Inr y_query \<Rightarrow>
          (case extract_fingerprints (audio_peaks y_query) (cfg_sr c) (cfg_n_fft c)
                  (cfg_hop_ratio c) (cfg_fanout c) (cfg_dt_min c) (cfg_dt_max_seconds c) of
             Inl e \<Rightarrow> recognition_error e
           | Inr query_fingerprints \<Rightarrow>
               (case query_multi_song query_fingerprints (svc_db svc) of
                  (song_name, offset, score) \<Rightarrow>
                    if cfg_hop_ratio c = 0
                    then recognition_error
                           (ZeroDivisionError ''integer division or modulo by zero'')
                    else
                      (case interpret_match song_name offset score
                              (cfg_n_fft c div cfg_hop_ratio c) (cfg_sr c) of
                         Inl e \<Rightarrow> recognition_error e
                       | Inr result \<Rightarrow> result))))"

section \<open>Result interpretation\<close>

lemma confidence_label_cases:
  "confidence_label score = ''No match'' \<longleftrightarrow> score < 200"
  "confidence_label score = ''Low confidence'' \<longleftrightarrow> 200 \<le> score \<and> score < 1000"
  "confidence_label score = ''Medium confidence'' \<longleftrightarrow> 1000 \<le> score \<and> score < 3000"
  "confidence_label score = ''High confidence'' \<longleftrightarrow> 3000 \<le> score"
  by (simp_all add: confidence_label_def)

text \<open>
  Claim C5, as amended. \<open>confidence_label\<close> returns "No match" exactly below 200, "Low
  confidence" exactly on [200, 1000), "Medium confidence" exactly on [1000, 3000) and
  "High confidence" exactly from 3000 on. For a sampling rate other than zero,
  \<open>interpret_match\<close> returns a dictionary, and its \<open>matched\<close> entry is true exactly when
  the label is not "No match" and both \<open>song_name\<close> and \<open>best_offset\<close> are present. With a
  sampling rate of zero and those three conditions, the division by \<open>sr\<close> raises
  \<open>ZeroDivisionError\<close> and nothing is reported.
\<close>

theorem confidence_label_interpret_match:
  "(confidence_label score = ''No match'' \<longleftrightarrow> score < 200) \<and>
   (confidence_label score = ''Low confidence'' \<longleftrightarrow> 200 \<le> score \<and> score < 1000) \<and>
   (confidence_label score = ''Medium confidence'' \<longleftrightarrow> 1000 \<le> score \<and> score < 3000) \<and>
   (confidence_label score = ''High confidence'' \<longleftrightarrow> 3000 \<le> score) \<and>
   (sr \<noteq> 0 \<longrightarrow>
      (\<exists>result. interpret_match song_name best_offset score hop_length sr = Inr result \<and>
         (map_of result ''matched'' = Some (PBool True) \<longleftrightarrow>
            confidence_label score \<noteq> ''No match'' \<and> song_name \<noteq> None \<and> best_offset \<noteq> None))) \<and>
   (sr = 0 \<and> confidence_label score \<noteq> ''No match'' \<and> song_name \<noteq> None \<and> best_offset \<noteq> None \<longrightarrow>
      interpret_match song_name best_offset score hop_length sr =
        Inl (ZeroDivisionError ''division by zero''))"
proof -
  have "sr \<noteq> 0 \<Longrightarrow>
      \<exists>result. interpret_match song_name best_offset score hop_length sr = Inr result \<and>
         (map_of result ''matched'' = Some (PBool True) \<longleftrightarrow>
            confidence_label score \<noteq> ''No match'' \<and> song_name \<noteq> None \<and> best_offset \<noteq> None)"
    by (simp add: interpret_match_def Let_def)
  moreover have
    "sr = 0 \<and> confidence_label score \<noteq> ''No match'' \<and> song_name \<noteq> None \<and> best_offset \<noteq> None \<Longrightarrow>
      interpret_match song_name best_offset score hop_length sr =
        Inl (ZeroDivisionError ''division by zero'')"
    by (simp add: interpret_match_def Let_def)
  ultimately show ?thesis
    using confidence_label_cases [of score] by blast
qed

theorem confidence_label_interpret_match_witness:
  "(44100::int) \<noteq> 0 \<and>
   (\<exists>result. interpret_match (Some ''Test Song'') (Some 100) 3500 512 44100 = Inr result \<and>
      map_of result ''matched'' = Some (PBool True)) \<and>
   interpret_match (Some ''Test Song'') (Some 100) 3500 512 0 =
     Inl (ZeroDivisionError ''division by zero'')"
  using confidence_label_interpret_match [of 3500 44100 "Some ''Test Song''" "Some 100" 512]
    confidence_label_interpret_match [of 3500 0 "Some ''Test Song''" "Some 100" 512]
  by (simp add: confidence_label_def)

theorem interpret_match_zero_sr_counterexample:
  "confidence_label 5000 \<noteq> ''No match'' \<and> Some ''R1'' \<noteq> None \<and> Some (0::int) \<noteq> None \<and>
   interpret_match (Some ''R1'') (Some 0) 5000 512 0 =
     Inl (ZeroDivisionError ''division by zero'')"
  by (simp add: interpret_match_def confidence_label_def)

section \<open>Double arithmetic\<close>

lemma binary_exponent_bounds:
  "0 < a \<Longrightarrow> 2 powi binary_exponent a \<le> a \<and> a < 2 powi (binary_exponent a + 1)"
proof (induction a rule: binary_exponent.induct)
  case (1 a)
  show ?case
  proof (cases "a < 1")
    case True
    with "1.prems" have e: "binary_exponent a = binary_exponent (2 * a) - 1"
      by (subst binary_exponent.simps) simp
    from "1.IH"(1) True "1.prems"
    have "2 powi binary_exponent (2 * a) \<le> 2 * a \<and> 2 * a < 2 powi (binary_exponent (2 * a) + 1)"
      by simp
    then show ?thesis
      unfolding e by (simp add: power_int_add power_int_diff)
  next
    case False
    show ?thesis
    proof (cases "2 \<le> a")
      case True
      with False "1.prems" have e: "binary_exponent a = binary_exponent (a / 2) + 1"
        by (subst binary_exponent.simps) simp
      from "1.IH"(2) True False "1.prems"
      have "2 powi binary_exponent (a / 2) \<le> a / 2 \<and> a / 2 < 2 powi (binary_exponent (a / 2) + 1)"
        by simp
      then show ?thesis
        unfolding e by (simp add: power_int_add)
    next
      case two: False
      with False "1.prems" have "binary_exponent a = 0"
        by (subst binary_exponent.simps) simp
      with False two show ?thesis by simp
    qed
  qed
qed

lemmas float_eval =
  dt_max_of_def float_of_int_def round_double_def binary_exponent.simps round_half_even_def
  py_int_def Let_def

lemma dt_max_of_default: "dt_max_of (Finite 2) 44100 512 = Inr 172"
  by (simp add: float_eval)

section \<open>Configuration validation\<close>















section \<open>The hash index\<close>

lemma bucket_update:
  "bucket (AList.update k v db) k' = (if k' = k then v else bucket db k')"
  by (simp add: bucket_def update_conv')

lemma bucket_append_entry:
  "bucket (append_entry db k e) k' = (if k' = k then bucket db k @ [e] else bucket db k')"
  by (simp add: append_entry_def bucket_update) (simp add: bucket_def)

lemma distinct_append_entry:
  "distinct (map fst db) \<Longrightarrow> distinct (map fst (append_entry db k e))"
  by (simp add: append_entry_def distinct_update)

lemma bucket_add_fingerprints:
  "bucket (add_fingerprints song_name fingerprints db) k =
     bucket db k @ entries_for song_name fingerprints k"
  unfolding add_fingerprints_def entries_for_def
  by (induction fingerprints arbitrary: db) (auto simp: bucket_append_entry)

lemma distinct_add_fingerprints:
  "distinct (map fst db) \<Longrightarrow> distinct (map fst (add_fingerprints song_name fingerprints db))"
  unfolding add_fingerprints_def
  by (induction fingerprints arbitrary: db) (auto simp: distinct_append_entry)

lemma bucket_absent: "k \<notin> fst ` set db \<Longrightarrow> bucket db k = []"
proof -
  assume "k \<notin> fst ` set db"
  then have "map_of db k = None" by (simp add: map_of_eq_None_iff)
  then show ?thesis by (simp add: bucket_def)
qed

lemma bucket_merge_entries:
  "distinct (map fst new_db) \<Longrightarrow>
   bucket (merge_entries new_db db) k = bucket db k @ bucket new_db k"
proof (induction new_db arbitrary: db)
  case Nil
  show ?case by (simp add: merge_entries_def bucket_def)
next
  case (Cons item new_db)
  obtain k0 entries where item: "item = (k0, entries)" by (cases item)
  define db1 where "db1 = AList.update k0 (bucket db k0 @ entries) db"
  have step: "merge_entries (item # new_db) db = merge_entries new_db db1"
    by (simp add: merge_entries_def item db1_def bucket_def split: option.split)
  have db1: "bucket db1 k = (if k = k0 then bucket db k0 @ entries else bucket db k)"
    by (simp add: db1_def bucket_update)
  from Cons.prems item have fresh: "k0 \<notin> fst ` set new_db" and dist: "distinct (map fst new_db)"
    by auto
  have new: "bucket (item # new_db) k = (if k = k0 then entries else bucket new_db k)"
    by (simp add: item bucket_def)
  show ?case
    using Cons.IH [OF dist, of db1] bucket_absent [OF fresh]
    by (simp add: step db1 new)
qed

section \<open>The peak list\<close>

lemma where_cells_row_ge: "c \<in> set (where_cells f rows) \<Longrightarrow> int f \<le> fst c"
  by (induction f rows rule: where_cells.induct) auto

lemma sorted_where_cells: "sorted (map fst (where_cells f rows))"
proof (induction f rows rule: where_cells.induct)
  case (1 f)
  show ?case by simp
next
  case (2 f row rows)
  have "int f \<le> fst c" if "c \<in> set (where_cells (Suc f) rows)" for c
    using where_cells_row_ge [OF that] by simp
  moreover have "sorted (map (\<lambda>t. int f) ts)" for ts :: "nat list"
    by (induction ts) auto
  ultimately show ?case
    using 2 by (auto simp: sorted_append comp_def)
qed

lemma distinct_where_cells: "distinct (where_cells f rows)"
proof (induction f rows rule: where_cells.induct)
  case (1 f)
  show ?case by simp
next
  case (2 f row rows)
  have "distinct (map (\<lambda>t. (int f, int t)) (filter (\<lambda>t. row ! t) [0..<length row]))"
    by (simp add: distinct_map inj_on_def)
  moreover have "fst c \<noteq> int f" if "c \<in> set (where_cells (Suc f) rows)" for c
    using where_cells_row_ge [OF that] by simp
  ultimately show ?case
    using 2 by fastforce
qed

lemma zip_np_where:
  "zip (map snd cells) (map fst cells) = map prod.swap cells"
  by (induction cells) auto

lemma peak_list_of_sort:
  "peak_list_of peaks = sort_key fst (map prod.swap (where_cells 0 peaks))"
  by (simp add: peak_list_of_def np_where_def zip_np_where)

lemma distinct_peak_list_of: "distinct (peak_list_of peaks)"
  by (simp add: peak_list_of_sort distinct_map distinct_where_cells)

lemma insort_time_then_freq:
  "sorted_wrt time_then_freq ys \<Longrightarrow> \<forall>y \<in> set ys. snd x \<le> snd y \<Longrightarrow>
   sorted_wrt time_then_freq (insort_key fst x ys)"
proof (induction ys)
  case Nil
  show ?case by simp
next
  case (Cons y ys)
  show ?case
  proof (cases "fst x \<le> fst y")
    case True
    with Cons.prems show ?thesis
      by (fastforce simp: time_then_freq_def)
  next
    case False
    with Cons show ?thesis
      by (auto simp: set_insort_key time_then_freq_def)
  qed
qed

lemma sort_time_then_freq:
  "sorted (map snd xs) \<Longrightarrow> sorted_wrt time_then_freq (sort_key fst xs)"
proof (induction xs)
  case Nil
  show ?case by simp
next
  case (Cons x xs)
  then show ?case
    by (simp add: insort_time_then_freq)
qed

lemma sorted_peak_list_of: "sorted_wrt time_then_freq (peak_list_of peaks)"
proof -
  have "map snd (map prod.swap cells) = map fst cells" for cells :: "(int \<times> int) list"
    by (induction cells) auto
  then have "sorted (map snd (map prod.swap (where_cells 0 peaks)))"
    by (simp only: sorted_where_cells)
  then show ?thesis
    unfolding peak_list_of_sort by (rule sort_time_then_freq)
qed

text \<open>
  Claim C4. For every peak matrix the peak list is ordered by time ascending, ties by
  frequency ascending: any two consecutive entries \<open>(t_a, f_a)\<close>, \<open>(t_b, f_b)\<close> have
  \<open>t_a < t_b\<close>, or \<open>t_a = t_b\<close> and \<open>f_a \<le> f_b\<close>; the same holds for any two entries, the
  first before the second. The sort compares times only; the order of the frequencies
  comes from \<open>np.where\<close>, which walks the rows in ascending order, and from the
  stability of the sort.
\<close>

theorem peak_list_time_then_freq:
  "sorted_wrt time_then_freq (peak_list_of peaks) \<and>
   (\<forall>i. Suc i < length (peak_list_of peaks) \<longrightarrow>
      (case (peak_list_of peaks ! i, peak_list_of peaks ! Suc i) of
         ((t_a, f_a), (t_b, f_b)) \<Rightarrow> t_a < t_b \<or> (t_a = t_b \<and> f_a \<le> f_b)))"
proof -
  have "case (peak_list_of peaks ! i, peak_list_of peaks ! Suc i) of
         ((t_a, f_a), (t_b, f_b)) \<Rightarrow> t_a < t_b \<or> (t_a = t_b \<and> f_a \<le> f_b)"
    if "Suc i < length (peak_list_of peaks)" for i
  proof -
    from that have "time_then_freq (peak_list_of peaks ! i) (peak_list_of peaks ! Suc i)"
      using sorted_peak_list_of [of peaks] by (simp add: sorted_wrt_iff_nth_less)
    then show ?thesis
      by (cases "peak_list_of peaks ! i"; cases "peak_list_of peaks ! Suc i")
        (simp add: time_then_freq_def)
  qed
  then show ?thesis
    using sorted_peak_list_of [of peaks] by blast
qed

theorem peak_list_time_then_freq_witness:
  "peak_list_of
     [[True, False, True, False], [False, False, True, True], [True, False, False, False]] =
     [(0, 0), (0, 2), (2, 0), (2, 1), (3, 1)] \<and>
   Suc 1 < length [(0::int, 0::int), (0, 2), (2, 0), (2, 1), (3, 1)] \<and>
   ((0::int) < 2 \<or> ((0::int) = 2 \<and> (2::int) \<le> 0))"
proof -
  have pl: "peak_list_of
     [[True, False, True, False], [False, False, True, True], [True, False, False, False]] =
     [(0, 0), (0, 2), (2, 0), (2, 1), (3, 1)]"
    by (simp add: peak_list_of_def np_where_def upt_conv_Cons)
  show ?thesis
    using peak_list_time_then_freq
      [of "[[True, False, True, False], [False, False, True, True],
            [True, False, False, False]]"]
    by (simp add: pl)
qed

section \<open>Anchor-target pairing\<close>

lemma pair_targets_mem:
  "fp \<in> set (pair_targets fanout dt_min dt_max t1 f1 count rest) \<Longrightarrow>
   \<exists>t2 f2. (t2, f2) \<in> set rest \<and> fp = (f1, f2, t2 - t1, t1) \<and>
     dt_min \<le> t2 - t1 \<and> t2 - t1 \<le> dt_max"
proof (induction rest arbitrary: count)
  case Nil
  then show ?case by simp
next
  case (Cons target rest)
  obtain t2 f2 where target: "target = (t2, f2)" by (cases target)
  from Cons.prems show ?case
    unfolding target
    by (auto simp: Let_def split: if_splits dest!: Cons.IH)
qed

lemma pair_targets_length:
  "count < fanout \<Longrightarrow>
   int (length (pair_targets fanout dt_min dt_max t1 f1 count rest)) \<le> fanout - count"
proof (induction rest arbitrary: count)
  case Nil
  then show ?case by simp
next
  case (Cons target rest)
  obtain t2 f2 where target: "target = (t2, f2)" by (cases target)
  show ?case
  proof (cases "count + 1 \<ge> fanout")
    case True
    with Cons.prems show ?thesis
      using Cons.IH [of count] by (simp add: target Let_def)
  next
    case False
    then have "count + 1 < fanout" by simp
    from Cons.IH [OF this] Cons.IH [OF Cons.prems] Cons.prems show ?thesis
      by (simp add: target Let_def)
  qed
qed

lemma pair_anchors_mem:
  "fp \<in> set (pair_anchors fanout dt_min dt_max peak_list) \<Longrightarrow>
   \<exists>t1 f1 t2 f2. (t1, f1) \<in> set peak_list \<and> (t2, f2) \<in> set peak_list \<and>
     fp = (f1, f2, t2 - t1, t1) \<and> dt_min \<le> t2 - t1 \<and> t2 - t1 \<le> dt_max"
proof (induction peak_list)
  case Nil
  then show ?case by simp
next
  case (Cons anchor rest)
  obtain t1 f1 where anchor: "anchor = (t1, f1)" by (cases anchor)
  from Cons.prems consider
    "fp \<in> set (pair_targets fanout dt_min dt_max t1 f1 0 rest)" |
    "fp \<in> set (pair_anchors fanout dt_min dt_max rest)"
    by (auto simp: anchor)
  then show ?case
  proof cases
    case 1
    from pair_targets_mem [OF this] show ?thesis
      by (auto simp: anchor)
  next
    case 2
    from Cons.IH [OF this] show ?thesis
      by auto
  qed
qed

lemma emitted_with_anchor_append:
  "emitted_with_anchor a (xs @ ys) = emitted_with_anchor a xs @ emitted_with_anchor a ys"
  by (simp add: emitted_with_anchor_def)

lemma emitted_with_anchor_none:
  "\<forall>fp \<in> set fps. (case fp of (f1, f2, dt, t1) \<Rightarrow> (t1, f1) \<noteq> a) \<Longrightarrow>
   emitted_with_anchor a fps = []"
  by (auto simp: emitted_with_anchor_def filter_empty_conv)

lemma emitted_with_anchor_length:
  "length (emitted_with_anchor a fps) \<le> length fps"
  by (simp add: emitted_with_anchor_def)

lemma pair_anchors_fanout:
  "1 \<le> fanout \<Longrightarrow> distinct peak_list \<Longrightarrow>
   int (length (emitted_with_anchor a (pair_anchors fanout dt_min dt_max peak_list))) \<le> fanout"
proof (induction peak_list)
  case Nil
  then show ?case by (simp add: emitted_with_anchor_def)
next
  case (Cons anchor rest)
  obtain t1 f1 where anchor: "anchor = (t1, f1)" by (cases anchor)
  let ?own = "pair_targets fanout dt_min dt_max t1 f1 0 rest"
  let ?later = "pair_anchors fanout dt_min dt_max rest"
  from Cons.prems have fresh: "(t1, f1) \<notin> set rest" and dist: "distinct rest"
    by (auto simp: anchor)
  show ?case
  proof (cases "a = (t1, f1)")
    case True
    have "\<forall>fp \<in> set ?later. (case fp of (f1', f2, dt, t1') \<Rightarrow> (t1', f1') \<noteq> a)"
      using fresh True by (auto dest!: pair_anchors_mem)
    then have "emitted_with_anchor a ?later = []"
      by (rule emitted_with_anchor_none)
    moreover have "int (length ?own) \<le> fanout"
      using pair_targets_length [of 0 fanout dt_min dt_max t1 f1 rest] Cons.prems(1) by simp
    moreover have "length (emitted_with_anchor a ?own) \<le> length ?own"
      by (rule emitted_with_anchor_length)
    ultimately show ?thesis
      by (simp add: anchor emitted_with_anchor_append)
  next
    case False
    have "\<forall>fp \<in> set ?own. (case fp of (f1', f2, dt, t1') \<Rightarrow> (t1', f1') \<noteq> a)"
      using False by (auto dest!: pair_targets_mem)
    then have "emitted_with_anchor a ?own = []"
      by (rule emitted_with_anchor_none)
    with Cons.IH [OF Cons.prems(1) dist] show ?thesis
      by (simp add: anchor emitted_with_anchor_append)
  qed
qed

lemma extract_fingerprints_Inr:
  "extract_fingerprints peaks sr n_fft hop_ratio fanout dt_min dt_max_seconds = Inr fps \<Longrightarrow>
   \<exists>peak_mask dt_max. peaks = Inr peak_mask \<and> hop_ratio \<noteq> 0 \<and>
     dt_max_of dt_max_seconds sr (n_fft div hop_ratio) = Inr dt_max \<and>
     fps = pair_anchors fanout dt_min dt_max (peak_list_of peak_mask)"
  by (auto simp: extract_fingerprints_def Let_def split: if_splits sum.splits)

text \<open>
  Claim C3. With \<open>fanout \<ge> 1\<close>, for every peak matrix and every entry \<open>(t1, f1)\<close> of its
  peak list, the fingerprints returned by \<open>extract_fingerprints\<close> whose anchor is
  \<open>(t1, f1)\<close> number at most \<open>fanout\<close>.
\<close>

theorem anchor_emits_at_most_fanout:
  assumes "1 \<le> fanout"
    and "extract_fingerprints (Inr peak_mask) sr n_fft hop_ratio fanout dt_min dt_max_seconds =
           Inr fingerprints"
    and "(t1, f1) \<in> set (peak_list_of peak_mask)"
  shows "int (length (emitted_with_anchor (t1, f1) fingerprints)) \<le> fanout"
proof -
  from extract_fingerprints_Inr [OF assms(2)] obtain dt_max where
    "fingerprints = pair_anchors fanout dt_min dt_max (peak_list_of peak_mask)"
    by auto
  then show ?thesis
    using pair_anchors_fanout [OF assms(1) distinct_peak_list_of] by simp
qed

theorem anchor_emits_at_most_fanout_witness:
  "(1::int) \<le> 1 \<and>
   extract_fingerprints (Inr [[True, False, True, False, True]]) 44100 2048 4 1 2 (Finite 2) =
     Inr [(0, 0, 2, 0), (0, 0, 2, 2)] \<and>
   (0, 0) \<in> set (peak_list_of [[True, False, True, False, True]]) \<and>
   int (length (emitted_with_anchor (0, 0) [(0, 0, 2, 0), (0, 0, 2, 2)])) \<le> 1"
proof -
  have pl: "peak_list_of [[True, False, True, False, True]] = [(0, 0), (2, 0), (4, 0)]"
    by (simp add: peak_list_of_def np_where_def upt_conv_Cons)
  have fps: "extract_fingerprints (Inr [[True, False, True, False, True]]) 44100 2048 4 1 2
      (Finite 2) = Inr [(0, 0, 2, 0), (0, 0, 2, 2)]"
    by (simp add: extract_fingerprints_def pl dt_max_of_default)
  have "(0, 0) \<in> set (peak_list_of [[True, False, True, False, True]])"
    by (simp add: pl)
  from anchor_emits_at_most_fanout [OF _ fps this] fps this show ?thesis
    by simp
qed

lemma extract_fingerprints_dt_range:
  assumes "extract_fingerprints peaks sr n_fft hop_ratio fanout dt_min dt_max_seconds = Inr fps"
    and "(f1, f2, dt, t1) \<in> set fps"
  shows "\<exists>dt_max. dt_max_of dt_max_seconds sr (n_fft div hop_ratio) = Inr dt_max \<and>
    dt_min \<le> dt \<and> dt \<le> dt_max"
proof -
  from extract_fingerprints_Inr [OF assms(1)] assms(2) obtain peak_mask dt_max where
    "dt_max_of dt_max_seconds sr (n_fft div hop_ratio) = Inr dt_max" and
    "(f1, f2, dt, t1) \<in> set (pair_anchors fanout dt_min dt_max (peak_list_of peak_mask))"
    by blast
  with pair_anchors_mem [OF this(2)] show ?thesis by auto
qed

text \<open>
  When no operation rounds and the quotient is not negative, the computed bound is the
  floor of the exact quotient.
\<close>

lemma dt_max_of_exact:
  assumes "is_double (real_of_int sr)" and "is_double (real_of_int hop_length)"
    and "hop_length \<noteq> 0"
    and "is_double (x * real_of_int sr)"
    and "is_double (x * real_of_int sr / real_of_int hop_length)"
    and "0 \<le> x * real_of_int sr / real_of_int hop_length"
  shows "dt_max_of (Finite x) sr hop_length =
    Inr \<lfloor>x * real_of_int sr / real_of_int hop_length\<rfloor>"
  using assms by (simp add: dt_max_of_def float_of_int_def is_double_def py_int_def)

lemma keys_append_entry:
  "fst ` set (append_entry db k e) = insert k (fst ` set db)"
  by (simp add: append_entry_def dom_update)

lemma keys_add_fingerprints:
  "fst ` set (add_fingerprints song_name fps db) =
     fst ` set db \<union> (\<lambda>(f1, f2, dt, t1). (f1, f2, dt)) ` set fps"
proof (induction fps arbitrary: db)
  case Nil
  show ?case by (simp add: add_fingerprints_def)
next
  case (Cons fp fps)
  obtain f1 f2 dt t1 where fp: "fp = (f1, f2, dt, t1)" by (cases fp)
  have "add_fingerprints song_name (fp # fps) db =
      add_fingerprints song_name fps (append_entry db (f1, f2, dt) (song_name, t1))"
    by (simp add: add_fingerprints_def fp)
  then show ?case
    by (simp add: Cons.IH keys_append_entry fp)
qed

lemma keys_build_fold:
  "fst ` set (fst (fold (\<lambda>(song_name, fingerprints) (db, metadata).
             (add_fingerprints song_name fingerprints db,
              AList.update song_name
                \<lparr>num_fingerprints = int (length fingerprints), duration_seconds = None\<rparr>
                metadata)) song_fingerprints (db0, md0))) =
   fst ` set db0 \<union>
     (\<Union>(song_name, fps) \<in> set song_fingerprints. (\<lambda>(f1, f2, dt, t1). (f1, f2, dt)) ` set fps)"
proof (induction song_fingerprints arbitrary: db0 md0)
  case Nil
  show ?case by simp
next
  case (Cons item rest)
  obtain song_name fps where item: "item = (song_name, fps)" by (cases item)
  show ?case
    by (simp add: item Cons.IH keys_add_fingerprints Un_assoc)
qed

lemma keys_build_song_database:
  "(f1, f2, dt) \<in> fst ` set (fst (build_song_database song_fingerprints)) \<Longrightarrow>
   \<exists>song_name fps t1. (song_name, fps) \<in> set song_fingerprints \<and> (f1, f2, dt, t1) \<in> set fps"
  unfolding build_song_database_def keys_build_fold by fastforce

text \<open>
  Claim C2, as amended. Every fingerprint \<open>(f1, f2, dt, t1)\<close> returned by
  \<open>extract_fingerprints\<close> has \<open>dt_min \<le> dt \<le> dt_max\<close>, where \<open>dt_max\<close> is the integer that
  \<open>int(dt_max_seconds * sr / hop_length)\<close> evaluates to: the product and the quotient
  are each rounded to a double and the result is truncated towards zero. So has every
  hash key of the database that \<open>build_song_database\<close> builds from lists of such
  fingerprints. That integer is the floor of the exact quotient when the quotient is
  not negative and \<open>sr\<close>, \<open>hop_length\<close>, the product and the quotient are doubles, so
  that nothing is rounded, as with the defaults (\<open>2.0 * 44100 / 512\<close> gives 172). It can
  exceed the floor when an operation rounds up to an integer or when the quotient is
  negative.
\<close>

theorem dt_within_bounds:
  "(extract_fingerprints peaks sr n_fft hop_ratio fanout dt_min dt_max_seconds = Inr fps \<and>
    (f1, f2, dt, t1) \<in> set fps \<longrightarrow>
      (\<exists>dt_max. dt_max_of dt_max_seconds sr (n_fft div hop_ratio) = Inr dt_max \<and>
         dt_min \<le> dt \<and> dt \<le> dt_max)) \<and>
   ((\<forall>(song_name, fps') \<in> set song_fingerprints.
        \<exists>peaks'. extract_fingerprints peaks' sr n_fft hop_ratio fanout dt_min dt_max_seconds =
          Inr fps') \<and>
    ((g1, g2, dt'), entries) \<in> set (fst (build_song_database song_fingerprints)) \<longrightarrow>
      (\<exists>dt_max. dt_max_of dt_max_seconds sr (n_fft div hop_ratio) = Inr dt_max \<and>
         dt_min \<le> dt' \<and> dt' \<le> dt_max)) \<and>
   (is_double (real_of_int sr) \<and> is_double (real_of_int hop_length) \<and> hop_length \<noteq> 0 \<and>
    is_double (x * real_of_int sr) \<and>
    is_double (x * real_of_int sr / real_of_int hop_length) \<and>
    0 \<le> x * real_of_int sr / real_of_int hop_length \<longrightarrow>
      dt_max_of (Finite x) sr hop_length =
        Inr \<lfloor>x * real_of_int sr / real_of_int hop_length\<rfloor>)"
proof -
  have "\<exists>dt_max. dt_max_of dt_max_seconds sr (n_fft div hop_ratio) = Inr dt_max \<and>
         dt_min \<le> dt' \<and> dt' \<le> dt_max"
    if built: "\<forall>(song_name, fps') \<in> set song_fingerprints.
         \<exists>peaks'. extract_fingerprints peaks' sr n_fft hop_ratio fanout dt_min dt_max_seconds =
           Inr fps'"
      and stored: "((g1, g2, dt'), entries) \<in> set (fst (build_song_database song_fingerprints))"
  proof -
    from stored have "(g1, g2, dt') \<in> fst ` set (fst (build_song_database song_fingerprints))"
      by force
    from keys_build_song_database [OF this] obtain song_name l t where
      "(song_name, l) \<in> set song_fingerprints" and mem: "(g1, g2, dt', t) \<in> set l"
      by blast
    with built obtain p where
      "extract_fingerprints p sr n_fft hop_ratio fanout dt_min dt_max_seconds = Inr l"
      by blast
    from extract_fingerprints_dt_range [OF this mem] show ?thesis .
  qed
  then show ?thesis
    using extract_fingerprints_dt_range [of peaks sr n_fft hop_ratio fanout dt_min
        dt_max_seconds fps f1 f2 dt t1]
      dt_max_of_exact [of sr hop_length x]
    by blast
qed

theorem dt_above_floor_counterexample:
  "(0::int) \<le> 0 \<and> (0::real) < 2 \<and>
   extract_fingerprints (Inr [[True], [True]]) (- 1) 2048 4 10 0 (Finite 2) =
     Inr [(0, 1, 0, 0)] \<and>
   \<not> (0::int) \<le> \<lfloor>2 * real_of_int (- 1) / real_of_int (2048 div 4)\<rfloor> \<and>
   round_double (24 / 100) = Finite (1080863910568919 / 4503599627370496) \<and>
   (0::int) \<le> 2 \<and> (0::real) < 1080863910568919 / 4503599627370496 \<and>
   extract_fingerprints
     (Inr [[True, False, False, False, False, False, False, False,
            False, False, False, False, False, False, False, True]])
     8000 512 4 10 2 (Finite (1080863910568919 / 4503599627370496)) = Inr [(0, 0, 15, 0)] \<and>
   \<not> (15::int) \<le>
     \<lfloor>1080863910568919 / 4503599627370496 * real_of_int 8000 / real_of_int (512 div 4)\<rfloor>"
proof -
  have "\<lfloor>- (1 / 256 :: real)\<rfloor> = - 1"
    by (simp add: floor_eq_iff)
  moreover have "\<lceil>- (1 / 256 :: real)\<rceil> = 0"
    by (simp add: ceiling_eq_iff)
  then have "dt_max_of (Finite 2) (- 1) 512 = Inr 0"
    by (simp add: float_eval)
  moreover have "round_double (24 / 100) = Finite (1080863910568919 / 4503599627370496)"
    by (simp add: float_eval)
  moreover have "dt_max_of (Finite (1080863910568919 / 4503599627370496)) 8000 128 = Inr 15"
    by (simp add: float_eval)
  moreover have "\<lfloor>1080863910568919 / 4503599627370496 * 8000 / 128 :: real\<rfloor> = 14"
    by (simp add: floor_eq_iff)
  ultimately show ?thesis
    by (simp add: extract_fingerprints_def peak_list_of_def np_where_def upt_conv_Cons)
qed

theorem dt_within_bounds_witness:
  "extract_fingerprints (Inr [[True, False, True]]) 44100 2048 4 10 2 (Finite 2) =
     Inr [(0, 0, 2, 0)] \<and>
   dt_max_of (Finite 2) 44100 (2048 div 4) = Inr 172 \<and>
   (2::int) \<le> 2 \<and> (2::int) \<le> 172 \<and>
   \<lfloor>2 * real_of_int 44100 / real_of_int 512\<rfloor> = 172 \<and>
   fst (build_song_database [(''R1'', [(0, 0, 2, 0)])]) = [((0, 0, 2), [(''R1'', 0)])]"
proof -
  have fps: "extract_fingerprints (Inr [[True, False, True]]) 44100 2048 4 10 2 (Finite 2) =
      Inr [(0, 0, 2, 0)]"
    by (simp add: extract_fingerprints_def peak_list_of_def np_where_def upt_conv_Cons
        dt_max_of_default)
  have db: "fst (build_song_database [(''R1'', [(0, 0, 2, 0)])]) = [((0, 0, 2), [(''R1'', 0)])]"
    by (simp add: build_song_database_def add_fingerprints_def append_entry_def)
  have built: "\<forall>(song_name, fps') \<in> set [(''R1'', [(0, 0, 2, 0)])].
      \<exists>peaks'. extract_fingerprints peaks' 44100 2048 4 10 2 (Finite 2) = Inr fps'"
    using fps by auto
  have exact: "is_double (real_of_int 44100)" "is_double (real_of_int 512)"
    "is_double (2 * real_of_int 44100)" "is_double (2 * real_of_int 44100 / real_of_int 512)"
    by (simp_all add: is_double_def float_eval)
  have "(\<exists>dt_max. dt_max_of (Finite 2) 44100 (2048 div 4) = Inr dt_max \<and>
           (2::int) \<le> 2 \<and> 2 \<le> dt_max) \<and>
        (\<exists>dt_max. dt_max_of (Finite 2) 44100 (2048 div 4) = Inr dt_max \<and>
           (2::int) \<le> 2 \<and> 2 \<le> dt_max) \<and>
        dt_max_of (Finite 2) 44100 512 = Inr \<lfloor>2 * real_of_int 44100 / real_of_int 512\<rfloor>"
    using dt_within_bounds
      [of "Inr [[True, False, True]]" 44100 2048 4 10 2 "Finite 2" "[(0, 0, 2, 0)]" 0 0 2 0
          "[(''R1'', [(0, 0, 2, 0)])]" 0 0 2 "[(''R1'', 0)]" 512 2]
      fps db built exact
    by simp
  then show ?thesis
    using fps db dt_max_of_default by auto
qed

section \<open>The SNR variant of the extractor\<close>

text \<open>
  Claim C10. \<open>extract_fingerprints_with_snr_info\<close> never returns a value: whenever
  \<open>extract_fingerprints\<close> and \<open>compute_snr_estimate\<close> both return, so that the \<open>return\<close>
  statement is reached, the lookup of \<open>snr_db_actual\<close> raises \<open>NameError\<close>.
\<close>

theorem snr_info_never_returns:
  "(\<forall>r. extract_fingerprints_with_snr_info peaks snr sr n_fft hop_ratio fanout dt_min
           dt_max_seconds \<noteq> Inr r) \<and>
   (\<forall>fingerprints snr_db.
      extract_fingerprints peaks sr n_fft hop_ratio fanout dt_min dt_max_seconds =
        Inr fingerprints \<and> snr = Inr snr_db \<longrightarrow>
      extract_fingerprints_with_snr_info peaks snr sr n_fft hop_ratio fanout dt_min
        dt_max_seconds = Inl (NameError ''name 'snr_db_actual' is not defined''))"
proof -
  have unbound: "load_name snr_info_locals fingerprinting_globals ''snr_db_actual'' v =
      Inl (NameError ''name 'snr_db_actual' is not defined'')" for v :: real
    by (simp add: load_name_def snr_info_locals_def fingerprinting_globals_def quoted_def)
  have zero: "hop_ratio = 0 \<Longrightarrow>
      extract_fingerprints peaks sr n_fft hop_ratio fanout dt_min dt_max_seconds =
        Inl (ZeroDivisionError ''integer division or modulo by zero'')"
    by (simp add: extract_fingerprints_def)
  show ?thesis
    using zero
    by (auto simp: extract_fingerprints_with_snr_info_def unbound split: sum.splits)
qed

theorem snr_info_never_returns_witness:
  "extract_fingerprints (Inr [[True, False, True]]) 44100 2048 4 10 2 (Finite 2) =
     Inr [(0, 0, 2, 0)] \<and>
   extract_fingerprints_with_snr_info (Inr [[True, False, True]]) (Inr 12) 44100 2048 4 10 2
     (Finite 2) =
     Inl (NameError ''name 'snr_db_actual' is not defined'')"
proof -
  have "extract_fingerprints (Inr [[True, False, True]]) 44100 2048 4 10 2 (Finite 2) =
      Inr [(0, 0, 2, 0)]"
    by (simp add: extract_fingerprints_def peak_list_of_def np_where_def upt_conv_Cons
        dt_max_of_default)
  then show ?thesis
    using snr_info_never_returns
      [of "Inr [[True, False, True]]" "Inr 12" 44100 2048 4 10 2 "Finite 2"]
    by simp
qed

section \<open>The service\<close>

text \<open>
  Claim C7, as amended. \<open>load_database\<close> makes no compatibility check. The file written
  by \<open>save_database\<close> holds the index and the metadata only, so it is the same under
  every configuration; loading it into any service that reads the same path succeeds
  and installs the saved index and metadata, whatever the configuration of that service.
\<close>

theorem load_database_no_compatibility_check:
  "load_database (other\<lparr>svc_db_path := svc_db_path svc\<rparr>) (snd (save_database svc WriteOk fs)) =
     (True, other\<lparr>svc_db_path := svc_db_path svc, svc_db := svc_db svc,
                  svc_metadata := svc_metadata svc\<rparr>) \<and>
   load_database (svc\<lparr>svc_config := c\<rparr>) (snd (save_database svc WriteOk fs)) =
     (True, svc\<lparr>svc_config := c\<rparr>) \<and>
   save_database (svc\<lparr>svc_config := c\<rparr>) io fs = save_database svc io fs"
  by (simp add: load_database_def save_database_def split: io_outcome.split)

theorem load_database_mutated_config_counterexample:
  "cfg_n_fft (DEFAULT_CONFIG\<lparr>cfg_n_fft := 1024\<rparr>) \<noteq> cfg_n_fft DEFAULT_CONFIG \<and>
   load_database
     \<lparr>svc_db_path = ''fingerprint_db.pkl'', svc_db = [], svc_metadata = [],
      svc_config = DEFAULT_CONFIG\<lparr>cfg_n_fft := 1024\<rparr>\<rparr>
     (snd (save_database
        \<lparr>svc_db_path = ''fingerprint_db.pkl'',
         svc_db = [((0, 0, 2), [(''R1'', 0)])],
         svc_metadata = [(''R1'', \<lparr>num_fingerprints = 1, duration_seconds = Some 2\<rparr>)],
         svc_config = DEFAULT_CONFIG\<rparr> WriteOk Map.empty)) =
     (True,
      \<lparr>svc_db_path = ''fingerprint_db.pkl'',
       svc_db = [((0, 0, 2), [(''R1'', 0)])],
       svc_metadata = [(''R1'', \<lparr>num_fingerprints = 1, duration_seconds = Some 2\<rparr>)],
       svc_config = DEFAULT_CONFIG\<lparr>cfg_n_fft := 1024\<rparr>\<rparr>)"
  by (simp add: load_database_def save_database_def DEFAULT_CONFIG_def)

text \<open>
  A result of \<open>recognize_audio\<close> is either the handler's dictionary or a dictionary that
  \<open>interpret_match\<close> returned.
\<close>

lemma recognize_audio_cases:
  "(\<exists>e. recognize_audio svc loaded = recognition_error e) \<or>
   (\<exists>song_name offset score hop_length sr.
      interpret_match song_name offset score hop_length sr = Inr (recognize_audio svc loaded))"
  unfolding recognize_audio_def Let_def
  by (auto split: sum.splits prod.splits)

lemma interpret_match_not_matched_keys:
  "interpret_match song_name best_offset score hop_length sr = Inr result \<Longrightarrow>
   map_of result ''matched'' = Some (PBool False) \<Longrightarrow>
   map fst result = [''matched'', ''message'', ''raw_score'']"
  by (auto simp: interpret_match_def Let_def split: if_splits)

text \<open>What \<open>recognize_audio\<close> returns for each outcome of the stages inside its \<open>try\<close>.\<close>

lemma recognize_audio_load_error:
  "recognize_audio svc (Inl e) = recognition_error e"
  by (simp add: recognize_audio_def)

lemma recognize_audio_extract_error:
  "extract_fingerprints (audio_peaks y) (cfg_sr (svc_config svc)) (cfg_n_fft (svc_config svc))
     (cfg_hop_ratio (svc_config svc)) (cfg_fanout (svc_config svc))
     (cfg_dt_min (svc_config svc)) (cfg_dt_max_seconds (svc_config svc)) = Inl e \<Longrightarrow>
   recognize_audio svc (Inr y) = recognition_error e"
  by (simp add: recognize_audio_def)

lemma recognize_audio_interpreted:
  assumes "extract_fingerprints (audio_peaks y) (cfg_sr (svc_config svc))
      (cfg_n_fft (svc_config svc)) (cfg_hop_ratio (svc_config svc))
      (cfg_fanout (svc_config svc)) (cfg_dt_min (svc_config svc))
      (cfg_dt_max_seconds (svc_config svc)) = Inr fps"
    and "query_multi_song fps (svc_db svc) = (song_name, offset, score)"
  shows "recognize_audio svc (Inr y) =
    (case interpret_match song_name offset score
            (cfg_n_fft (svc_config svc) div cfg_hop_ratio (svc_config svc))
            (cfg_sr (svc_config svc)) of
       Inl e \<Rightarrow> recognition_error e
     | Inr result \<Rightarrow> result)"
proof -
  from extract_fingerprints_Inr [OF assms(1)] have "cfg_hop_ratio (svc_config svc) \<noteq> 0"
    by blast
  with assms show ?thesis
    by (simp add: recognize_audio_def Let_def)
qed

text \<open>
  Claim C8, as amended. \<open>recognize_audio\<close> turns every exception raised while loading,
  fingerprinting, matching or interpreting into the dictionary with \<open>matched = False\<close>
  and the message "Error during recognition: ..." followed by the text of the
  exception; that dictionary has no \<open>raw_score\<close>. When the file loads, the fingerprints
  are extracted and \<open>interpret_match\<close> returns, the result is the dictionary that
  \<open>interpret_match\<close> returned for the match found by \<open>query_multi_song\<close>; every result
  is of one of these two kinds. A dictionary of \<open>interpret_match\<close> with
  \<open>matched = False\<close> has exactly the keys \<open>matched\<close>, \<open>message\<close> and \<open>raw_score\<close>.
\<close>

theorem recognize_audio_swallows_errors:
  "recognize_audio svc (Inl e) =
     [(''matched'', PBool False),
      (''message'', PStr (''Error during recognition: '' @ error_str e))] \<and>
   (extract_fingerprints (audio_peaks y) (cfg_sr (svc_config svc)) (cfg_n_fft (svc_config svc))
      (cfg_hop_ratio (svc_config svc)) (cfg_fanout (svc_config svc))
      (cfg_dt_min (svc_config svc)) (cfg_dt_max_seconds (svc_config svc)) = Inl e \<longrightarrow>
    recognize_audio svc (Inr y) =
      [(''matched'', PBool False),
       (''message'', PStr (''Error during recognition: '' @ error_str e))]) \<and>
   (extract_fingerprints (audio_peaks y) (cfg_sr (svc_config svc)) (cfg_n_fft (svc_config svc))
      (cfg_hop_ratio (svc_config svc)) (cfg_fanout (svc_config svc))
      (cfg_dt_min (svc_config svc)) (cfg_dt_max_seconds (svc_config svc)) = Inr fps \<and>
    query_multi_song fps (svc_db svc) = (found_song, found_offset, found_score) \<and>
    interpret_match found_song found_offset found_score
      (cfg_n_fft (svc_config svc) div cfg_hop_ratio (svc_config svc))
      (cfg_sr (svc_config svc)) = Inl e \<longrightarrow>
    recognize_audio svc (Inr y) =
      [(''matched'', PBool False),
       (''message'', PStr (''Error during recognition: '' @ error_str e))]) \<and>
   (extract_fingerprints (audio_peaks y) (cfg_sr (svc_config svc)) (cfg_n_fft (svc_config svc))
      (cfg_hop_ratio (svc_config svc)) (cfg_fanout (svc_config svc))
      (cfg_dt_min (svc_config svc)) (cfg_dt_max_seconds (svc_config svc)) = Inr fps \<and>
    query_multi_song fps (svc_db svc) = (found_song, found_offset, found_score) \<and>
    interpret_match found_song found_offset found_score
      (cfg_n_fft (svc_config svc) div cfg_hop_ratio (svc_config svc))
      (cfg_sr (svc_config svc)) = Inr interpreted \<longrightarrow>
    recognize_audio svc (Inr y) = interpreted) \<and>
   ((\<exists>e'. recognize_audio svc loaded =
            [(''matched'', PBool False),
             (''message'', PStr (''Error during recognition: '' @ error_str e'))]) \<or>
    (\<exists>song_name offset score hop_length sr.
       interpret_match song_name offset score hop_length sr =
         Inr (recognize_audio svc loaded))) \<and>
   (interpret_match song_name best_offset score hop_length sr = Inr result \<and>
    map_of result ''matched'' = Some (PBool False) \<longrightarrow>
      map fst result = [''matched'', ''message'', ''raw_score''])"
  using recognize_audio_load_error [of svc e]
    recognize_audio_extract_error [of y svc e]
    recognize_audio_interpreted [of y svc fps found_song found_offset found_score]
    recognize_audio_cases [of svc loaded]
    interpret_match_not_matched_keys [of song_name best_offset score hop_length sr result]
  by (simp add: recognition_error_def)

theorem recognize_audio_swallows_errors_witness:
  "recognize_audio
     \<lparr>svc_db_path = ''fingerprint_db.pkl'', svc_db = [], svc_metadata = [],
      svc_config = DEFAULT_CONFIG\<lparr>cfg_hop_ratio := 0\<rparr>\<rparr>
     (Inr \<lparr>num_samples = 1024, audio_peaks = Inr [[True, False, True]]\<rparr>) =
     [(''matched'', PBool False),
      (''message'', PStr ''Error during recognition: integer division or modulo by zero'')] \<and>
   recognize_audio
     \<lparr>svc_db_path = ''fingerprint_db.pkl'',
      svc_db = [((0, 1, 0), replicate 200 (''R1'', 0))], svc_metadata = [],
      svc_config = DEFAULT_CONFIG\<lparr>cfg_sr := 0, cfg_dt_min := 0\<rparr>\<rparr>
     (Inr \<lparr>num_samples = 1024, audio_peaks = Inr [[True], [True]]\<rparr>) =
     [(''matched'', PBool False),
      (''message'', PStr ''Error during recognition: division by zero'')] \<and>
   recognize_audio
     \<lparr>svc_db_path = ''fingerprint_db.pkl'', svc_db = [], svc_metadata = [],
      svc_config = DEFAULT_CONFIG\<rparr>
     (Inr \<lparr>num_samples = 1024, audio_peaks = Inr [[True, False, True]]\<rparr>) =
     [(''matched'', PBool False), (''message'', PStr ''No matching song detected''),
      (''raw_score'', PInt 0)] \<and>
   map fst [(''matched'', PBool False), (''message'', PStr ''No matching song detected''),
            (''raw_score'', PInt 0)] = [''matched'', ''message'', ''raw_score'']"
proof -
  let ?y = "\<lparr>num_samples = 1024, audio_peaks = Inr [[True, False, True]]\<rparr>"
  let ?svc = "\<lparr>svc_db_path = ''fingerprint_db.pkl'', svc_db = [], svc_metadata = [],
                svc_config = DEFAULT_CONFIG\<rparr>"
  let ?zero = "\<lparr>svc_db_path = ''fingerprint_db.pkl'', svc_db = [], svc_metadata = [],
                 svc_config = DEFAULT_CONFIG\<lparr>cfg_hop_ratio := 0\<rparr>\<rparr>"
  let ?y2 = "\<lparr>num_samples = 1024, audio_peaks = Inr [[True], [True]]\<rparr>"
  let ?silent = "\<lparr>svc_db_path = ''fingerprint_db.pkl'',
                   svc_db = [((0, 1, 0), replicate 200 (''R1'', 0))], svc_metadata = [],
                   svc_config = DEFAULT_CONFIG\<lparr>cfg_sr := 0, cfg_dt_min := 0\<rparr>\<rparr>"
  have bad_hop: "extract_fingerprints (Inr [[True, False, True]]) 44100 2048 0 10 2 (Finite 2) =
      Inl (ZeroDivisionError ''integer division or modulo by zero'')"
    by (simp add: extract_fingerprints_def)
  have first: "recognize_audio ?zero (Inr ?y) =
      [(''matched'', PBool False),
       (''message'', PStr ''Error during recognition: integer division or modulo by zero'')]"
    using recognize_audio_swallows_errors
      [of ?zero "ZeroDivisionError ''integer division or modulo by zero''" ?y]
      bad_hop
    by (simp add: DEFAULT_CONFIG_def)
  have "dt_max_of (Finite 2) 0 512 = Inr 0"
    by (simp add: float_eval)
  then have fps2: "extract_fingerprints (Inr [[True], [True]]) 0 2048 4 10 0 (Finite 2) =
      Inr [(0, 1, 0, 0)]"
    by (simp add: extract_fingerprints_def peak_list_of_def np_where_def upt_conv_Cons)
  have found: "query_multi_song [(0, 1, 0, 0)] [((0, 1, 0), replicate 200 (''R1'', 0))] =
      (Some ''R1'', Some 0, 200)"
    by code_simp
  have raised: "interpret_match (Some ''R1'') (Some 0) 200 512 0 =
      Inl (ZeroDivisionError ''division by zero'')"
    by (simp add: interpret_match_def confidence_label_def)
  have second: "recognize_audio ?silent (Inr ?y2) =
      [(''matched'', PBool False),
       (''message'', PStr ''Error during recognition: division by zero'')]"
    using recognize_audio_swallows_errors
      [of ?silent "ZeroDivisionError ''division by zero''" ?y2 "[(0, 1, 0, 0)]"
          "Some ''R1''" "Some 0" 200]
      fps2 found raised
    by (simp add: DEFAULT_CONFIG_def)
  have fps: "extract_fingerprints (Inr [[True, False, True]]) 44100 2048 4 10 2 (Finite 2) =
      Inr [(0, 0, 2, 0)]"
    by (simp add: extract_fingerprints_def peak_list_of_def np_where_def upt_conv_Cons
        dt_max_of_default)
  have none: "query_multi_song [(0, 0, 2, 0)] [] = (None, None, 0)"
    by (simp add: query_multi_song_def cast_votes_def)
  have no_match: "interpret_match None None 0 512 44100 =
      Inr [(''matched'', PBool False), (''message'', PStr ''No matching song detected''),
           (''raw_score'', PInt 0)]"
    by (simp add: interpret_match_def confidence_label_def)
  have third: "recognize_audio ?svc (Inr ?y) =
      [(''matched'', PBool False), (''message'', PStr ''No matching song detected''),
       (''raw_score'', PInt 0)]"
    using recognize_audio_swallows_errors
      [of ?svc _ ?y "[(0, 0, 2, 0)]" None None 0
          "[(''matched'', PBool False), (''message'', PStr ''No matching song detected''),
            (''raw_score'', PInt 0)]"]
      fps none no_match
    by (simp add: DEFAULT_CONFIG_def)
  from first second third show ?thesis by simp
qed

theorem recognize_audio_error_counterexample:
  "recognize_audio
     \<lparr>svc_db_path = ''fingerprint_db.pkl'', svc_db = [], svc_metadata = [],
      svc_config = DEFAULT_CONFIG\<rparr>
     (Inl (ExternalError ''No such file or directory'')) =
     [(''matched'', PBool False),
      (''message'', PStr ''Error during recognition: No such file or directory'')] \<and>
   map_of
     (recognize_audio
        \<lparr>svc_db_path = ''fingerprint_db.pkl'', svc_db = [], svc_metadata = [],
         svc_config = DEFAULT_CONFIG\<rparr>
        (Inl (ExternalError ''No such file or directory''))) ''raw_score'' = None"
  by (simp add: recognize_audio_def recognition_error_def)

lemma build_single_song:
  "build_song_database [(song_name, fingerprints)] =
     (add_fingerprints song_name fingerprints [],
      [(song_name, \<lparr>num_fingerprints = int (length fingerprints), duration_seconds = None\<rparr>)])"
  by (simp add: build_song_database_def)

text \<open>
  Claim C6, as amended. \<open>add_song\<close> does not reject a recording id that is already
  indexed (it has no such check, and the statement below holds whether or not
  \<open>song_name\<close> is present): when the audio loads, the fingerprints are extracted and the
  sampling rate is not zero, it reports success with the number of new fingerprints,
  replaces the metadata entry of \<open>song_name\<close> by the new count and duration, and
  appends the new entries to the buckets, after the entries already stored there.
\<close>

theorem add_song_appends_and_replaces:
  assumes "loaded = Inr y"
    and "extract_fingerprints (audio_peaks y) (cfg_sr (svc_config svc))
           (cfg_n_fft (svc_config svc)) (cfg_hop_ratio (svc_config svc))
           (cfg_fanout (svc_config svc)) (cfg_dt_min (svc_config svc))
           (cfg_dt_max_seconds (svc_config svc)) = Inr fingerprints"
    and "cfg_sr (svc_config svc) \<noteq> 0"
  shows "\<exists>svc' fs'.
     add_song svc loaded song_name io fs =
       ((True, int (length fingerprints), ''Successfully added '' @ song_name), svc', fs') \<and>
     map_of (svc_metadata svc') song_name =
       Some \<lparr>num_fingerprints = int (length fingerprints),
             duration_seconds =
               Some (real (num_samples y) / real_of_int (cfg_sr (svc_config svc)))\<rparr> \<and>
     (\<forall>hash_key. bucket (svc_db svc') hash_key =
        bucket (svc_db svc) hash_key @ entries_for song_name fingerprints hash_key)"
proof -
  have "distinct (map fst (add_fingerprints song_name fingerprints []))"
    by (rule distinct_add_fingerprints) simp
  then have merged: "bucket (merge_entries (add_fingerprints song_name fingerprints [])
        (svc_db svc)) k = bucket (svc_db svc) k @ entries_for song_name fingerprints k" for k
    by (simp add: bucket_merge_entries bucket_add_fingerprints) (simp add: bucket_def)
  show ?thesis
    using assms merged
    by (simp add: add_song_def Let_def build_single_song update_conv')
qed

theorem add_song_appends_and_replaces_witness:
  "extract_fingerprints (Inr [[False, True, False, True]]) 44100 2048 4 10 2 (Finite 2) =
     Inr [(0, 0, 2, 1)] \<and>
   (\<exists>svc' fs'.
      add_song
        \<lparr>svc_db_path = ''fingerprint_db.pkl'',
         svc_db = [((0, 0, 2), [(''R1'', 0)])],
         svc_metadata = [(''R1'', \<lparr>num_fingerprints = 1, duration_seconds = Some 1\<rparr>)],
         svc_config = DEFAULT_CONFIG\<rparr>
        (Inr \<lparr>num_samples = 88200, audio_peaks = Inr [[False, True, False, True]]\<rparr>)
        ''R1'' WriteOk Map.empty =
        ((True, 1, ''Successfully added R1''), svc', fs') \<and>
      map_of (svc_metadata svc') ''R1'' =
        Some \<lparr>num_fingerprints = 1, duration_seconds = Some 2\<rparr> \<and>
      bucket (svc_db svc') (0, 0, 2) = [(''R1'', 0), (''R1'', 1)])"
proof -
  let ?y = "\<lparr>num_samples = 88200, audio_peaks = Inr [[False, True, False, True]]\<rparr>"
  let ?svc = "\<lparr>svc_db_path = ''fingerprint_db.pkl'',
                svc_db = [((0, 0, 2), [(''R1'', 0)])],
                svc_metadata = [(''R1'', \<lparr>num_fingerprints = 1, duration_seconds = Some 1\<rparr>)],
                svc_config = DEFAULT_CONFIG\<rparr>"
  have fps: "extract_fingerprints (Inr [[False, True, False, True]]) 44100 2048 4 10 2 (Finite 2) =
      Inr [(0, 0, 2, 1)]"
    by (simp add: extract_fingerprints_def peak_list_of_def np_where_def upt_conv_Cons
        dt_max_of_default)
  then have extracted: "extract_fingerprints (audio_peaks ?y) (cfg_sr (svc_config ?svc))
      (cfg_n_fft (svc_config ?svc)) (cfg_hop_ratio (svc_config ?svc))
      (cfg_fanout (svc_config ?svc)) (cfg_dt_min (svc_config ?svc))
      (cfg_dt_max_seconds (svc_config ?svc)) = Inr [(0, 0, 2, 1)]"
    by (simp add: DEFAULT_CONFIG_def)
  have rate: "cfg_sr (svc_config ?svc) \<noteq> 0"
    by (simp add: DEFAULT_CONFIG_def)
  have "\<exists>svc' fs'.
      add_song ?svc (Inr ?y) ''R1'' WriteOk Map.empty =
        ((True, 1, ''Successfully added R1''), svc', fs') \<and>
      map_of (svc_metadata svc') ''R1'' =
        Some \<lparr>num_fingerprints = 1, duration_seconds = Some 2\<rparr> \<and>
      (\<forall>hash_key. bucket (svc_db svc') hash_key =
         bucket (svc_db ?svc) hash_key @ entries_for ''R1'' [(0, 0, 2, 1)] hash_key)"
    using add_song_appends_and_replaces [OF refl extracted rate, of "''R1''" WriteOk Map.empty]
    by (simp add: DEFAULT_CONFIG_def)
  then obtain svc' fs' where
    result: "add_song ?svc (Inr ?y) ''R1'' WriteOk Map.empty =
        ((True, 1, ''Successfully added R1''), svc', fs')" and
    meta: "map_of (svc_metadata svc') ''R1'' =
        Some \<lparr>num_fingerprints = 1, duration_seconds = Some 2\<rparr>" and
    buckets: "\<forall>hash_key. bucket (svc_db svc') hash_key =
         bucket (svc_db ?svc) hash_key @ entries_for ''R1'' [(0, 0, 2, 1)] hash_key"
    by blast
  from buckets have "bucket (svc_db svc') (0, 0, 2) = [(''R1'', 0), (''R1'', 1)]"
    by (simp add: bucket_def entries_for_def)
  with result meta fps show ?thesis by blast
qed

theorem add_song_existing_id_counterexample:
  "map_of [(''R1'', \<lparr>num_fingerprints = 1, duration_seconds = Some (1::real)\<rparr>)] ''R1'' \<noteq> None \<and>
   fst (add_song
        \<lparr>svc_db_path = ''fingerprint_db.pkl'',
         svc_db = [((0, 0, 2), [(''R1'', 0)])],
         svc_metadata = [(''R1'', \<lparr>num_fingerprints = 1, duration_seconds = Some 1\<rparr>)],
         svc_config = DEFAULT_CONFIG\<rparr>
        (Inr \<lparr>num_samples = 88200, audio_peaks = Inr [[False, True, False, True]]\<rparr>)
        ''R1'' WriteOk Map.empty) = (True, 1, ''Successfully added R1'') \<and>
   fst (snd (add_song
        \<lparr>svc_db_path = ''fingerprint_db.pkl'',
         svc_db = [((0, 0, 2), [(''R1'', 0)])],
         svc_metadata = [(''R1'', \<lparr>num_fingerprints = 1, duration_seconds = Some 1\<rparr>)],
         svc_config = DEFAULT_CONFIG\<rparr>
        (Inr \<lparr>num_samples = 88200, audio_peaks = Inr [[False, True, False, True]]\<rparr>)
        ''R1'' WriteOk Map.empty)) =
     \<lparr>svc_db_path = ''fingerprint_db.pkl'',
      svc_db = [((0, 0, 2), [(''R1'', 0), (''R1'', 1)])],
      svc_metadata = [(''R1'', \<lparr>num_fingerprints = 1, duration_seconds = Some 2\<rparr>)],
      svc_config = DEFAULT_CONFIG\<rparr>"
proof -
  have fps: "extract_fingerprints (Inr [[False, True, False, True]]) 44100 2048 4 10 2 (Finite 2) =
      Inr [(0, 0, 2, 1)]"
    by (simp add: extract_fingerprints_def peak_list_of_def np_where_def upt_conv_Cons
        dt_max_of_default)
  show ?thesis
    using fps
    by (simp add: add_song_def DEFAULT_CONFIG_def build_song_database_def
        add_fingerprints_def append_entry_def merge_entries_def Let_def)
qed

section \<open>Offset voting\<close>

lemma set_first_occurrences: "set (first_occurrences xs) = set xs"
  by (induction xs) auto

lemma distinct_first_occurrences: "distinct (first_occurrences xs)"
  by (induction xs) (auto simp: distinct_removeAll)

lemma first_occurrences_snoc:
  "first_occurrences (xs @ [x]) =
     (if x \<in> set xs then first_occurrences xs else first_occurrences xs @ [x])"
  by (induction xs) (auto simp: set_first_occurrences)

lemma first_occurrences_split:
  "w \<notin> set pre \<Longrightarrow>
   \<exists>rest. first_occurrences (pre @ w # post) = first_occurrences pre @ w # rest"
proof (induction pre)
  case Nil
  show ?case by simp
next
  case (Cons p pre)
  then obtain rest where
    "first_occurrences (pre @ w # post) = first_occurrences pre @ w # rest"
    by auto
  with Cons.prems show ?case by auto
qed

lemma update_present:
  "k \<in> set ks \<Longrightarrow> distinct ks \<Longrightarrow>
   AList.update k v (map (\<lambda>x. (x, g x)) ks) = map (\<lambda>x. (x, if x = k then v else g x)) ks"
  by (induction ks) auto

lemma update_absent:
  "k \<notin> set ks \<Longrightarrow> AList.update k v (map (\<lambda>x. (x, g x)) ks) = map (\<lambda>x. (x, g x)) ks @ [(k, v)]"
  by (induction ks) auto

lemma map_of_tally:
  "map_of (tally ks) k = (if k \<in> set ks then Some (int (count_list ks k)) else None)"
  unfolding tally_def
  by (simp add: map_of_map_restrict restrict_map_def set_first_occurrences)

lemma increment_tally: "increment (tally ks) k = tally (ks @ [k])"
proof (cases "k \<in> set ks")
  case True
  then have "increment (tally ks) k =
      map (\<lambda>x. (x, if x = k then int (count_list ks k) + 1 else int (count_list ks x)))
        (first_occurrences ks)"
    by (simp add: increment_def map_of_tally)
      (simp add: tally_def update_present set_first_occurrences distinct_first_occurrences)
  also have "\<dots> = tally (ks @ [k])"
    using True by (simp add: tally_def first_occurrences_snoc)
  finally show ?thesis .
next
  case False
  then have "increment (tally ks) k = tally ks @ [(k, 1)]"
    by (simp add: increment_def map_of_tally)
      (simp add: tally_def update_absent set_first_occurrences)
  also have "\<dots> = tally (ks @ [k])"
    using False by (auto simp: tally_def first_occurrences_snoc set_first_occurrences)
  finally show ?thesis .
qed

lemma fold_increment: "fold (\<lambda>k v. increment v k) ks (tally ks0) = tally (ks0 @ ks)"
  by (induction ks arbitrary: ks0) (simp_all add: increment_tally)

lemma cast_votes_fold:
  "cast_votes db fp votes = fold (\<lambda>k v. increment v k) (votes_cast [fp] db) votes"
  by (cases fp) (simp add: cast_votes_def votes_cast_def bucket_def fold_map comp_def
      case_prod_unfold split: option.split)

lemma votes_cast_Cons: "votes_cast (fp # fps) db = votes_cast [fp] db @ votes_cast fps db"
  by (simp add: votes_cast_def)

lemma fold_cast_votes:
  "fold (cast_votes db) fps votes = fold (\<lambda>k v. increment v k) (votes_cast fps db) votes"
proof (induction fps arbitrary: votes)
  case Nil
  show ?case by (simp add: votes_cast_def)
next
  case (Cons fp fps)
  have "fold (cast_votes db) (fp # fps) votes = fold (cast_votes db) fps (cast_votes db fp votes)"
    by simp
  also have "\<dots> = fold (\<lambda>k v. increment v k) (votes_cast fps db) (cast_votes db fp votes)"
    by (rule Cons.IH)
  also have "\<dots> = fold (\<lambda>k v. increment v k) (votes_cast fps db)
      (fold (\<lambda>k v. increment v k) (votes_cast [fp] db) votes)"
    by (simp only: cast_votes_fold)
  also have "\<dots> = fold (\<lambda>k v. increment v k) (votes_cast (fp # fps) db) votes"
    by (simp only: votes_cast_Cons [of fp fps] fold_append comp_def)
  finally show ?case .
qed

lemma votes_dictionary: "fold (cast_votes db) fps [] = tally (votes_cast fps db)"
  using fold_cast_votes [of db fps "[]"] fold_increment [of "votes_cast fps db" "[]"]
  by (simp add: tally_def)

lemma max_from_first_maximum:
  "\<exists>before after. best # items = before @ max_from best items # after \<and>
     (\<forall>b \<in> set before. snd b < snd (max_from best items)) \<and>
     (\<forall>a \<in> set after. snd a \<le> snd (max_from best items))"
proof (induction items arbitrary: best)
  case Nil
  show ?case by (intro exI [of _ "[]"]) simp
next
  case (Cons item items)
  define best' where "best' = (if snd item > snd best then item else best)"
  define r where "r = max_from best' items"
  have r: "max_from best (item # items) = r"
    by (simp add: r_def best'_def)
  from Cons.IH [of best'] obtain before after where
    split: "best' # items = before @ r # after" and
    less: "\<forall>b \<in> set before. snd b < snd r" and
    le: "\<forall>a \<in> set after. snd a \<le> snd r"
    unfolding r_def by blast
  have best': "snd best' \<le> snd r"
  proof (cases before)
    case Nil
    with split show ?thesis by simp
  next
    case (Cons b bs)
    with split less show ?thesis by auto
  qed
  show ?case
  proof (cases "snd item > snd best")
    case True
    then have "best' = item" by (simp add: best'_def)
    with split have "best # item # items = (best # before) @ r # after"
      by simp
    moreover from True best' \<open>best' = item\<close> have "snd best < snd r" by simp
    ultimately show ?thesis
      unfolding r using less le
      by (intro exI [of _ "best # before"] exI [of _ after]) simp
  next
    case False
    then have same: "best' = best" by (simp add: best'_def)
    show ?thesis
    proof (cases before)
      case Nil
      with split same have "r = best" "after = items" by simp_all
      with False le have "best # item # items = [] @ r # (item # items)"
        "\<forall>a \<in> set (item # items). snd a \<le> snd r"
        by simp_all
      then show ?thesis
        unfolding r
        by (intro exI [of _ "[]"] exI [of _ "item # items"]) simp
    next
      case (Cons b bs)
      with split same have b: "b = best" and items: "items = bs @ r # after"
        by simp_all
      from less Cons b have "snd best < snd r" by simp
      with False have "snd item < snd r" by simp
      moreover from items have "best # item # items = (best # item # bs) @ r # after"
        by simp
      ultimately show ?thesis
        unfolding r using less le Cons b
        by (intro exI [of _ "best # item # bs"] exI [of _ after]) simp
    qed
  qed
qed

lemma tally_Nil_iff: "tally ks = [] \<longleftrightarrow> ks = []"
  by (cases ks) (simp_all add: tally_def)

lemma tally_mem: "(k, c) \<in> set (tally ks) \<longleftrightarrow> k \<in> set ks \<and> c = int (count_list ks k)"
  by (auto simp: tally_def set_first_occurrences)

lemma votes_cast_empty_iff:
  "votes_cast fps db = [] \<longleftrightarrow> (\<forall>(f1, f2, dt, t_query) \<in> set fps. bucket db (f1, f2, dt) = [])"
  by (auto simp: votes_cast_def)

lemma first_maximum_of_tally:
  assumes "tally ks = before @ ((w, n)) # after"
    and less: "\<forall>b \<in> set before. snd b < n"
    and le: "\<forall>a \<in> set after. snd a \<le> n"
  shows "n = int (count_list ks w) \<and>
    (\<forall>p. count_list ks p \<le> count_list ks w) \<and>
    (\<exists>pre post. ks = pre @ w # post \<and> w \<notin> set pre \<and>
       (\<forall>p \<in> set pre. count_list ks p < count_list ks w))"
proof -
  have mem: "(w, n) \<in> set (tally ks)"
    using assms(1) by simp
  then have w: "w \<in> set ks" and n: "n = int (count_list ks w)"
    by (simp_all add: tally_mem)
  have maximal: "count_list ks p \<le> count_list ks w" for p
  proof (cases "p \<in> set ks")
    case True
    then have "(p, int (count_list ks p)) \<in> set (before @ (w, n) # after)"
      using assms(1) by (simp add: tally_mem flip: assms(1))
    with less le n show ?thesis by fastforce
  next
    case False
    then show ?thesis by (simp add: count_list_0_iff)
  qed
  from w obtain pre post where ks: "ks = pre @ w # post" and fresh: "w \<notin> set pre"
    by (auto dest: split_list_first)
  from first_occurrences_split [OF fresh, of post] ks obtain rest where
    occ: "first_occurrences ks = first_occurrences pre @ w # rest"
    by auto
  have "map fst (tally ks) = first_occurrences ks"
    by (simp add: tally_def comp_def)
  with assms(1) occ have eq: "first_occurrences pre @ w # rest = map fst before @ w # map fst after"
    by simp
  have "distinct (first_occurrences pre @ w # rest)"
    using distinct_first_occurrences [of ks] occ by simp
  then have "w \<notin> set (first_occurrences pre)" "w \<notin> set rest"
    by auto
  with eq have before: "first_occurrences pre = map fst before"
    by (simp add: append_Cons_eq_iff)
  have "count_list ks p < count_list ks w" if "p \<in> set pre" for p
  proof -
    from that have "p \<in> set (map fst before)"
      using before set_first_occurrences [of pre] by simp
    then obtain c where pc: "(p, c) \<in> set before" by auto
    then have "(p, c) \<in> set (tally ks)"
      using assms(1) by simp
    then have "c = int (count_list ks p)" by (simp add: tally_mem)
    with pc less n show ?thesis by fastforce
  qed
  with n maximal ks fresh show ?thesis by blast
qed

text \<open>
  Claim C1, as amended. \<open>query_multi_song\<close> returns \<open>(None, None, 0)\<close> exactly when no
  vote is cast, that is, when no query fingerprint has an entry stored under its hash
  key (the key is absent from \<open>db\<close> or its list is empty; in particular when the query
  or the database is empty). Otherwise it returns a pair \<open>(song_name, offset)\<close> together
  with its vote count; no pair has more votes, and every pair that received a vote
  before the first vote for the returned pair has strictly fewer votes, so that among
  the pairs with the maximum count the one whose first vote came first is returned.
\<close>

theorem query_multi_song_votes:
  "(votes_cast query_fingerprints db = [] \<longleftrightarrow>
      (\<forall>(f1, f2, dt, t_query) \<in> set query_fingerprints. bucket db (f1, f2, dt) = [])) \<and>
   ((\<forall>(f1, f2, dt, t_query) \<in> set query_fingerprints. map_of db (f1, f2, dt) = None) \<longrightarrow>
      query_multi_song query_fingerprints db = (None, None, 0)) \<and>
   (votes_cast query_fingerprints db = [] \<longrightarrow>
      query_multi_song query_fingerprints db = (None, None, 0)) \<and>
   (votes_cast query_fingerprints db \<noteq> [] \<longrightarrow>
      (\<exists>song_name offset pre post.
         query_multi_song query_fingerprints db =
           (Some song_name, Some offset,
            int (count_list (votes_cast query_fingerprints db) (song_name, offset))) \<and>
         (\<forall>p. count_list (votes_cast query_fingerprints db) p
               \<le> count_list (votes_cast query_fingerprints db) (song_name, offset)) \<and>
         votes_cast query_fingerprints db = pre @ (song_name, offset) # post \<and>
         (song_name, offset) \<notin> set pre \<and>
         (\<forall>p \<in> set pre. count_list (votes_cast query_fingerprints db) p
               < count_list (votes_cast query_fingerprints db) (song_name, offset))))"
proof -
  let ?votes = "votes_cast query_fingerprints db"
  have none: "query_multi_song query_fingerprints db = (None, None, 0)" if "?votes = []"
    using that by (simp add: query_multi_song_def votes_dictionary tally_def)
  have absent: "?votes = []"
    if "\<forall>(f1, f2, dt, t_query) \<in> set query_fingerprints. map_of db (f1, f2, dt) = None"
    using that by (auto simp: votes_cast_empty_iff bucket_def)
  have some: "\<exists>song_name offset pre post.
         query_multi_song query_fingerprints db =
           (Some song_name, Some offset, int (count_list ?votes (song_name, offset))) \<and>
         (\<forall>p. count_list ?votes p \<le> count_list ?votes (song_name, offset)) \<and>
         ?votes = pre @ (song_name, offset) # post \<and>
         (song_name, offset) \<notin> set pre \<and>
         (\<forall>p \<in> set pre. count_list ?votes p < count_list ?votes (song_name, offset))"
    if "?votes \<noteq> []"
  proof -
    from that obtain first items where dict: "tally ?votes = first # items"
      using tally_Nil_iff [of ?votes] by (cases "tally ?votes") auto
    obtain song_name offset n where best: "max_from first items = ((song_name, offset), n)"
      by (metis prod.exhaust)
    from max_from_first_maximum [of first items] best dict obtain before after where
      "tally ?votes = before @ ((song_name, offset), n) # after"
      "\<forall>b \<in> set before. snd b < n" "\<forall>a \<in> set after. snd a \<le> n"
      by auto
    from first_maximum_of_tally [OF this]
    have "n = int (count_list ?votes (song_name, offset))"
      and "\<forall>p. count_list ?votes p \<le> count_list ?votes (song_name, offset)"
      and "\<exists>pre post. ?votes = pre @ (song_name, offset) # post \<and> (song_name, offset) \<notin> set pre \<and>
         (\<forall>p \<in> set pre. count_list ?votes p < count_list ?votes (song_name, offset))"
      by blast+
    moreover have "query_multi_song query_fingerprints db = (Some song_name, Some offset, n)"
      by (simp add: query_multi_song_def votes_dictionary dict best)
    ultimately show ?thesis by blast
  qed
  from none absent some votes_cast_empty_iff [of query_fingerprints db] show ?thesis
    by blast
qed

theorem query_multi_song_empty_bucket_counterexample:
  "map_of [((1, 2, 3), [])] (1::int, 2::int, 3::int) \<noteq> (None :: (string \<times> int) list option) \<and>
   query_multi_song [(1, 2, 3, 0)] [((1, 2, 3), [])] = (None, None, 0)"
  by (simp add: query_multi_song_def cast_votes_def)

theorem query_multi_song_votes_witness:
  "votes_cast [(1, 1, 1, 0)] [((1, 1, 1), [(''B'', 5), (''A'', 5), (''A'', 5), (''B'', 5)])] =
     [(''B'', 5), (''A'', 5), (''A'', 5), (''B'', 5)] \<and>
   count_list [(''B'', 5::int), (''A'', 5), (''A'', 5), (''B'', 5)] (''A'', 5) = 2 \<and>
   count_list [(''B'', 5::int), (''A'', 5), (''A'', 5), (''B'', 5)] (''B'', 5) = 2 \<and>
   query_multi_song [(1, 1, 1, 0)]
     [((1, 1, 1), [(''B'', 5), (''A'', 5), (''A'', 5), (''B'', 5)])] = (Some ''B'', Some 5, 2) \<and>
   votes_cast [(1, 1, 1, 0)] [] = [] \<and>
   query_multi_song [(1, 1, 1, 0)] [] = (None, None, 0)"
proof -
  have votes: "votes_cast [(1, 1, 1, 0)]
      [((1, 1, 1), [(''B'', 5), (''A'', 5), (''A'', 5), (''B'', 5)])] =
      [(''B'', 5), (''A'', 5), (''A'', 5), (''B'', 5)]"
    by (simp add: votes_cast_def bucket_def)
  have empty: "votes_cast [(1, 1, 1, 0)] [] = []"
    by (simp add: votes_cast_def bucket_def)
  have "query_multi_song [(1, 1, 1, 0)] [] = (None, None, 0)"
    using query_multi_song_votes [of "[(1, 1, 1, 0)]" "[]"] empty by simp
  moreover have "query_multi_song [(1, 1, 1, 0)]
     [((1, 1, 1), [(''B'', 5), (''A'', 5), (''A'', 5), (''B'', 5)])] = (Some ''B'', Some 5, 2)"
    using query_multi_song_votes
      [of "[(1, 1, 1, 0)]" "[((1, 1, 1), [(''B'', 5), (''A'', 5), (''A'', 5), (''B'', 5)])]"]
    by (simp add: query_multi_song_def cast_votes_def increment_def)
  ultimately show ?thesis
    using votes empty by simp
qed

end
